theory Spec2Isabelle
  imports Main "HOL-Library.Sublist" "HOL-Library.Product_Lexorder"
begin

section \<open>Go strings\<close>

text \<open>
  A Go string is a sequence of bytes; it is modelled as a \<^typ>\<open>string\<close>, one
  \<^typ>\<open>char\<close> per byte. The functions of package \<^verbatim>\<open>strings\<close> that the
  program calls are written out on byte lists.
\<close>

definition HasPrefix :: "string \<Rightarrow> string \<Rightarrow> bool" where
  "HasPrefix s p = (take (length p) s = p)"

definition HasSuffix :: "string \<Rightarrow> string \<Rightarrow> bool" where
  "HasSuffix s p = (length p \<le> length s \<and> drop (length s - length p) s = p)"

definition TrimPrefix :: "string \<Rightarrow> string \<Rightarrow> string" where
  "TrimPrefix s p = (if HasPrefix s p then drop (length p) s else s)"

definition TrimSuffix :: "string \<Rightarrow> string \<Rightarrow> string" where
  "TrimSuffix s p = (if HasSuffix s p then take (length s - length p) s else s)"

text \<open>
  \<^verbatim>\<open>strings.TrimSpace\<close> removes the leading and the trailing runes for which
  \<^verbatim>\<open>unicode.IsSpace\<close> holds. These are the six ASCII characters tab, line feed,
  vertical tab, form feed, carriage return and space, and the code points U+0085, U+00A0,
  U+1680, U+2000 to U+200A, U+2028, U+2029, U+202F, U+205F and U+3000. The table lists
  their UTF-8 encodings. A byte sequence that does not decode to one of these runes
  (another rune, or invalid UTF-8) stops the trimming.
\<close>

definition spaceEncodings :: "string list" where
  "spaceEncodings =
    [[CHR 0x09], [CHR 0x0A], [CHR 0x0B], [CHR 0x0C], [CHR 0x0D], [CHR 0x20],
     [CHR 0xC2, CHR 0x85], [CHR 0xC2, CHR 0xA0],
     [CHR 0xE1, CHR 0x9A, CHR 0x80],
     [CHR 0xE2, CHR 0x80, CHR 0x80], [CHR 0xE2, CHR 0x80, CHR 0x81],
     [CHR 0xE2, CHR 0x80, CHR 0x82], [CHR 0xE2, CHR 0x80, CHR 0x83],
     [CHR 0xE2, CHR 0x80, CHR 0x84], [CHR 0xE2, CHR 0x80, CHR 0x85],
     [CHR 0xE2, CHR 0x80, CHR 0x86], [CHR 0xE2, CHR 0x80, CHR 0x87],
     [CHR 0xE2, CHR 0x80, CHR 0x88], [CHR 0xE2, CHR 0x80, CHR 0x89],
     [CHR 0xE2, CHR 0x80, CHR 0x8A],
     [CHR 0xE2, CHR 0x80, CHR 0xA8], [CHR 0xE2, CHR 0x80, CHR 0xA9],
     [CHR 0xE2, CHR 0x80, CHR 0xAF], [CHR 0xE2, CHR 0x81, CHR 0x9F],
     [CHR 0xE3, CHR 0x80, CHR 0x80]]"

definition spaceByte :: "char \<Rightarrow> bool" where
  "spaceByte c \<longleftrightarrow> c \<in> set (concat spaceEncodings)"

text \<open>The number of bytes of the white-space rune a string starts with, or ends with
  (0 when there is none).\<close>

definition leadingSpace :: "string \<Rightarrow> nat" where
  "leadingSpace s =
     (case find (HasPrefix s) spaceEncodings of Some e \<Rightarrow> length e | None \<Rightarrow> 0)"

definition trailingSpace :: "string \<Rightarrow> nat" where
  "trailingSpace s =
     (case find (HasSuffix s) spaceEncodings of Some e \<Rightarrow> length e | None \<Rightarrow> 0)"

function TrimLeftSpace :: "string \<Rightarrow> string" where
  "TrimLeftSpace s =
     (if leadingSpace s = 0 then s else TrimLeftSpace (drop (leadingSpace s) s))"
  by pat_completeness auto
termination
proof (relation "measure length")
  show "wf (measure length)" by simp
next
  fix s :: string
  assume "leadingSpace s \<noteq> 0"
  then obtain e where e: "find (HasPrefix s) spaceEncodings = Some e" "leadingSpace s = length e"
    by (auto simp: leadingSpace_def split: option.splits)
  then have "HasPrefix s e" by (auto simp: find_Some_iff)
  then have "length e \<le> length s"
    by (metis HasPrefix_def length_take min.cobounded1 min.commute)
  moreover from e(1) have "0 < length e"
    by (auto simp: find_Some_iff spaceEncodings_def nth_Cons' split: if_splits)
  ultimately show "(drop (leadingSpace s) s, s) \<in> measure length"
    using e(2) by (cases e) simp_all
qed

function TrimRightSpace :: "string \<Rightarrow> string" where
  "TrimRightSpace s =
     (if trailingSpace s = 0 then s
      else TrimRightSpace (take (length s - trailingSpace s) s))"
  by pat_completeness auto
termination
proof (relation "measure length")
  show "wf (measure length)" by simp
next
  fix s :: string
  assume "trailingSpace s \<noteq> 0"
  then obtain e where e: "find (HasSuffix s) spaceEncodings = Some e" "trailingSpace s = length e"
    by (auto simp: trailingSpace_def split: option.splits)
  then have "HasSuffix s e" by (auto simp: find_Some_iff)
  then have "length e \<le> length s"
    by (simp add: HasSuffix_def)
  moreover from e(1) have "0 < length e"
    by (auto simp: find_Some_iff spaceEncodings_def nth_Cons' split: if_splits)
  ultimately show "(take (length s - trailingSpace s) s, s) \<in> measure length"
    using e(2) by (cases e) simp_all
qed

definition TrimSpace :: "string \<Rightarrow> string" where
  "TrimSpace s = TrimRightSpace (TrimLeftSpace s)"

text \<open>\<^verbatim>\<open>strings.Split(s, sep)\<close> for a separator of one byte: the pieces between the
  separators, empty pieces included; a string without separator is the only piece.\<close>

fun Split :: "string \<Rightarrow> char \<Rightarrow> string list" where
  "Split [] c = [[]]"
| "Split (x # xs) c =
     (if x = c then [] # Split xs c
      else (case Split xs c of p # ps \<Rightarrow> (x # p) # ps | [] \<Rightarrow> [[x]]))"

text \<open>
  \<^verbatim>\<open>strconv.Atoi\<close>, for the 64-bit \<^verbatim>\<open>int\<close>. The empty string is a syntax
  error. After an optional sign the digits are read from the left into an unsigned
  64-bit number (\<^verbatim>\<open>strconv.ParseUint\<close>): a byte that is no decimal digit is a
  syntax error, a number that leaves the 64 bits is a range error, whichever comes
  first. A number that was read is a range error when it is outside the range of
  \<^verbatim>\<open>int\<close> with its sign.
\<close>

datatype NumError = ErrSyntax | ErrRange

definition isDigit :: "char \<Rightarrow> bool" where
  "isDigit c = (48 \<le> (of_char c :: nat) \<and> (of_char c :: nat) \<le> 57)"

fun parseUint :: "nat \<Rightarrow> string \<Rightarrow> NumError + nat" where
  "parseUint n [] = Inr n"
| "parseUint n (c # cs) =
     (if \<not> isDigit c then Inl ErrSyntax
      else if 2 ^ 64 - 1 < n * 10 + (of_char c - 48) then Inl ErrRange
      else parseUint (n * 10 + (of_char c - 48)) cs)"

definition Atoi :: "string \<Rightarrow> NumError + int" where
  "Atoi s =
     (if s = [] then Inl ErrSyntax
      else
        (let neg = (hd s = CHR ''-'');
             ds = (if hd s = CHR ''-'' \<or> hd s = CHR ''+'' then tl s else s)
         in if ds = [] then Inl ErrSyntax
            else
              (case parseUint 0 ds of
                 Inl err \<Rightarrow> Inl err
               | Inr un \<Rightarrow>
                   if \<not> neg \<and> 2 ^ 63 \<le> un then Inl ErrRange
                   else if neg \<and> 2 ^ 63 < un then Inl ErrRange
                   else Inr (if neg then - int un else int un))))"

section \<open>Name casing (\<^verbatim>\<open>internal/template/util.go\<close>)\<close>

text \<open>
  The casing functions walk over the runes of their argument (\<^verbatim>\<open>for i, r := range s\<close>,
  \<^verbatim>\<open>[]rune(s)\<close>) and write runes to the result, so they are modelled on the
  sequence of runes of the string, a rune being its code point (Go reads a byte that is
  not part of a valid UTF-8 encoding as the rune U+FFFD). The index \<^verbatim>\<open>i\<close> of
  the loop is a byte offset; only \<^verbatim>\<open>i > 0\<close> is read, which says that the rune is
  not the first one. \<open>runes\<close> gives the runes of an ASCII string.

  The tables of package \<^verbatim>\<open>unicode\<close> are not part of the program. They are a
  parameter of the model; \<open>ascii\<close> gives their values on the ASCII range.
\<close>

type_synonym rune = nat

definition runes :: "string \<Rightarrow> rune list" where
  "runes s = map of_char s"

record unicode =
  IsUpper :: "rune \<Rightarrow> bool"
  ToLower :: "rune \<Rightarrow> rune"
  ToUpper :: "rune \<Rightarrow> rune"

definition ascii :: unicode where
  "ascii = \<lparr> IsUpper = (\<lambda>r. 65 \<le> r \<and> r \<le> 90),
             ToLower = (\<lambda>r. if 65 \<le> r \<and> r \<le> 90 then r + 32 else r),
             ToUpper = (\<lambda>r. if 97 \<le> r \<and> r \<le> 122 then r - 32 else r) \<rparr>"

text \<open>Tables that have the values of \<open>ascii\<close> on the ASCII range, as Go's have.\<close>

definition ascii_compatible :: "unicode \<Rightarrow> bool" where
  "ascii_compatible U \<longleftrightarrow>
     (\<forall>r < 128. IsUpper U r = IsUpper ascii r \<and> ToLower U r = ToLower ascii r
                \<and> ToUpper U r = ToUpper ascii r)"

text \<open>\<^verbatim>\<open>strings.ReplaceAll(s, old, new)\<close> for one-character \<open>old\<close> and \<open>new\<close>;
  hyphen is code point 45 and underscore is 95.\<close>

definition replaceRune :: "rune \<Rightarrow> rune \<Rightarrow> rune list \<Rightarrow> rune list" where
  "replaceRune old new s = map (\<lambda>r. if r = old then new else r) s"

text \<open>The loop of \<^verbatim>\<open>toSnakeCase\<close> and \<^verbatim>\<open>toKebabCase\<close>: the separator \<open>c\<close>
  before every upper-case rune but the first rune, each rune in lower case. The flag
  \<open>pos\<close> is \<^verbatim>\<open>i > 0\<close>.\<close>

fun separateUpper :: "unicode \<Rightarrow> rune \<Rightarrow> bool \<Rightarrow> rune list \<Rightarrow> rune list" where
  "separateUpper U c pos [] = []"
| "separateUpper U c pos (r # rs) =
     (if IsUpper U r \<and> pos then [c] else []) @ ToLower U r # separateUpper U c True rs"

text \<open>\<^verbatim>\<open>regexp.MustCompile(`_+`).ReplaceAllString(s, "_")\<close>: every run of the rune
  \<open>c\<close> becomes one \<open>c\<close>. The flag says that the rune before was a \<open>c\<close>.\<close>

fun collapseRuns :: "rune \<Rightarrow> bool \<Rightarrow> rune list \<Rightarrow> rune list" where
  "collapseRuns c prev [] = []"
| "collapseRuns c prev (r # rs) =
     (if r = c \<and> prev then collapseRuns c True rs else r # collapseRuns c (r = c) rs)"

definition toSnakeCase :: "unicode \<Rightarrow> rune list \<Rightarrow> rune list" where
  "toSnakeCase U s =
     collapseRuns 95 False (separateUpper U 95 False (replaceRune 45 95 s))"

definition toKebabCase :: "unicode \<Rightarrow> rune list \<Rightarrow> rune list" where
  "toKebabCase U s =
     collapseRuns 45 False (separateUpper U 45 False (replaceRune 95 45 s))"

text \<open>The character class \<^verbatim>\<open>[-_\s]\<close>; in Go's regular expressions \<^verbatim>\<open>\s\<close> is
  tab, line feed, form feed, carriage return and space.\<close>

definition isSep :: "rune \<Rightarrow> bool" where
  "isSep r = (r = 45 \<or> r = 95 \<or> r = 9 \<or> r = 10 \<or> r = 12 \<or> r = 13 \<or> r = 32)"

text \<open>\<^verbatim>\<open>regexp.MustCompile(`[-_\s]+`).Split(s, -1)\<close>: the pieces between the maximal
  runs of separators, an empty piece before a leading and after a trailing run.\<close>

fun splitSep :: "rune list \<Rightarrow> rune list list" where
  "splitSep [] = [[]]"
| "splitSep (r # rs) =
     (if isSep r then
        (case rs of r' # _ \<Rightarrow> if isSep r' then splitSep rs else [] # splitSep rs
                  | [] \<Rightarrow> [] # splitSep rs)
      else (case splitSep rs of p # ps \<Rightarrow> (r # p) # ps | [] \<Rightarrow> [[r]]))"

fun capitalize :: "unicode \<Rightarrow> rune list \<Rightarrow> rune list" where
  "capitalize U [] = []"
| "capitalize U (r # rs) = ToUpper U r # rs"

text \<open>The loop of \<^verbatim>\<open>toCamelCase\<close>; \<open>i\<close> is the index of the part.
  \<^verbatim>\<open>strings.ToLower\<close> maps \<^verbatim>\<open>unicode.ToLower\<close> over the runes.\<close>

fun camelLoop :: "unicode \<Rightarrow> nat \<Rightarrow> rune list list \<Rightarrow> rune list" where
  "camelLoop U i [] = []"
| "camelLoop U i (part # parts) =
     (if part = [] then camelLoop U (i + 1) parts
      else if i = 0 then map (ToLower U) part @ camelLoop U (i + 1) parts
      else capitalize U part @ camelLoop U (i + 1) parts)"

definition toCamelCase :: "unicode \<Rightarrow> rune list \<Rightarrow> rune list" where
  "toCamelCase U s =
     (let parts = splitSep s in if length parts = 0 then [] else camelLoop U 0 parts)"

fun pascalLoop :: "unicode \<Rightarrow> rune list list \<Rightarrow> rune list" where
  "pascalLoop U [] = []"
| "pascalLoop U (part # parts) =
     (if part = [] then pascalLoop U parts else capitalize U part @ pascalLoop U parts)"

definition toPascalCase :: "unicode \<Rightarrow> rune list \<Rightarrow> rune list" where
  "toPascalCase U s = pascalLoop U (splitSep s)"

text \<open>
  What the idempotence of the transforms needs of the tables: the case mappings are
  idempotent, a rune whose lower case is upper case is upper case itself, and the seven
  separator runes are fixed by the mappings and are the image of no other rune.
\<close>

definition unicode_ok :: "unicode \<Rightarrow> bool" where
  "unicode_ok U \<longleftrightarrow>
     (\<forall>r. ToLower U (ToLower U r) = ToLower U r) \<and>
     (\<forall>r. ToUpper U (ToUpper U r) = ToUpper U r) \<and>
     (\<forall>r. IsUpper U (ToLower U r) \<longrightarrow> IsUpper U r) \<and>
     (\<forall>r. isSep r \<longrightarrow> ToLower U r = r \<and> ToUpper U r = r) \<and>
     (\<forall>r. isSep (ToLower U r) \<or> isSep (ToUpper U r) \<longrightarrow> isSep r)"

section \<open>Renderer: file names (\<^verbatim>\<open>internal/template/renderer.go\<close>)\<close>

definition ShouldRender :: "string \<Rightarrow> bool" where
  "ShouldRender filename = HasSuffix filename ''.tmpl''"

definition GetOutputFilename :: "string \<Rightarrow> string" where
  "GetOutputFilename filename =
     (if HasSuffix filename ''.tmpl'' then TrimSuffix filename ''.tmpl'' else filename)"

section \<open>Version comparison (package \<^verbatim>\<open>validator\<close>)\<close>

text \<open>The errors that \<^verbatim>\<open>parseVersion\<close> and \<^verbatim>\<open>CompareVersion\<close> build with
  \<^verbatim>\<open>fmt.Errorf\<close>, one constructor for each format, with the arguments of the format.\<close>

datatype error =
    InvalidComponent string NumError
  | InvalidCurrent string error
  | InvalidRequired string error
  | UnknownOperator string

text \<open>The loop of \<^verbatim>\<open>parseVersion\<close>; the array \<^verbatim>\<open>[3]int\<close> is a list of three
  integers.\<close>

function parseLoop :: "string list \<Rightarrow> nat \<Rightarrow> int list \<Rightarrow> error + int list" where
  "parseLoop parts i result =
     (if i < 3 then
        (if i < length parts then
           (case Atoi (parts ! i) of
              Inl err \<Rightarrow> Inl (InvalidComponent (parts ! i) err)
            | Inr num \<Rightarrow> parseLoop parts (i + 1) (result[i := num]))
         else parseLoop parts (i + 1) (result[i := 0]))
      else Inr result)"
  by pat_completeness auto
termination
  by (relation "measure (\<lambda>(parts, i, result). 3 - i)") auto

definition parseVersion :: "string \<Rightarrow> error + int list" where
  "parseVersion version =
     (let version = TrimPrefix version ''v'';
          parts = Split version CHR ''.''
      in parseLoop parts 0 [0, 0, 0])"

function compareLoop :: "int list \<Rightarrow> int list \<Rightarrow> nat \<Rightarrow> int" where
  "compareLoop v1 v2 i =
     (if i < 3 then
        (if v1 ! i < v2 ! i then - 1
         else if v1 ! i > v2 ! i then 1
         else compareLoop v1 v2 (i + 1))
      else 0)"
  by pat_completeness auto
termination
  by (relation "measure (\<lambda>(v1, v2, i). 3 - i)") auto

definition compareVersionParts :: "int list \<Rightarrow> int list \<Rightarrow> int" where
  "compareVersionParts v1 v2 = compareLoop v1 v2 0"

definition CompareVersion :: "string \<Rightarrow> string \<Rightarrow> error + bool" where
  "CompareVersion current requirement =
     (let requirement = TrimSpace requirement;
          (operator, requiredVersion) =
            (if HasPrefix requirement ''>='' then (''>='', TrimSpace (drop 2 requirement))
             else if HasPrefix requirement ''<='' then (''<='', TrimSpace (drop 2 requirement))
             else if HasPrefix requirement ''>'' then (''>'', TrimSpace (drop 1 requirement))
             else if HasPrefix requirement ''<'' then (''<'', TrimSpace (drop 1 requirement))
             else if HasPrefix requirement ''='' then (''='', TrimSpace (drop 1 requirement))
             else if HasPrefix requirement ''^'' then (''^'', TrimSpace (drop 1 requirement))
             else if HasPrefix requirement ''~'' then (''~'', TrimSpace (drop 1 requirement))
             else (''='', requirement))
      in case parseVersion current of
           Inl err \<Rightarrow> Inl (InvalidCurrent current err)
         | Inr currentParts \<Rightarrow>
             (case parseVersion requiredVersion of
                Inl err \<Rightarrow> Inl (InvalidRequired requiredVersion err)
              | Inr requiredParts \<Rightarrow>
                  (let comparison = compareVersionParts currentParts requiredParts
                   in if operator = ''>='' then Inr (comparison \<ge> 0)
                      else if operator = ''>'' then Inr (comparison > 0)
                      else if operator = ''<='' then Inr (comparison \<le> 0)
                      else if operator = ''<'' then Inr (comparison < 0)
                      else if operator = ''='' then Inr (comparison = 0)
                      else if operator = ''^'' then
                        (if comparison < 0 then Inr False
                         else Inr (currentParts ! 0 = requiredParts ! 0))
                      else if operator = ''~'' then
                        (if comparison < 0 then Inr False
                         else Inr (currentParts ! 0 = requiredParts ! 0
                                   \<and> currentParts ! 1 = requiredParts ! 1))
                      else Inl (UnknownOperator operator))))"

text \<open>
  For the statements below: \<open>Comp parts i\<close> is what the loop of \<^verbatim>\<open>parseVersion\<close>
  stores at index \<open>i\<close>, the number read from component \<open>i\<close> or 0 when the version has
  no such component; \<open>triple v\<close> is a version as (major, minor, patch), ordered
  lexicographically.
\<close>

definition Comp :: "string list \<Rightarrow> nat \<Rightarrow> NumError + int" where
  "Comp parts i = (if i < length parts then Atoi (parts ! i) else Inr 0)"

definition triple :: "int list \<Rightarrow> int \<times> int \<times> int" where
  "triple v = (v ! 0, v ! 1, v ! 2)"

section \<open>Templates and rendering contexts (\<^verbatim>\<open>internal/template/types.go\<close>)\<close>

text \<open>
  A value of a template variable (\<^verbatim>\<open>interface{}\<close> in the source) is a boolean, a
  string or a number. The records have the fields that the generator reads; two records
  may use one field name, which is then written with the name of its record.
\<close>

datatype val = VBool bool | VString string | VInt int

record Variable =
  Default :: "val option"

record FileSpec =
  Source :: string
  Destination :: string
  Conditions :: "string list"
  Permissions :: string

text \<open>The file mode 0644 is 420, and 0755 is 493.\<close>

definition GetPermissions :: "FileSpec \<Rightarrow> nat" where
  "GetPermissions f = (if Permissions f = '''' then 420 else 420)"

record Template =
  Version :: string
  Name :: string
  Language :: string
  Framework :: string
  Variables :: "string \<rightharpoonup> Variable"
  Files :: "FileSpec list"
  Path :: string

text \<open>The four casing variants of the project name that \<^verbatim>\<open>NewContext\<close> stores are
  functions of \<open>ProjectName\<close>; the generator does not read them and the record leaves
  them out.\<close>

record Context =
  ProjectName :: string
  OutputDir :: string
  Variables :: "string \<rightharpoonup> val"
  Template :: Template
  PythonVersion :: string
  IncludeDocker :: bool
  Database :: string
  IncludeTests :: bool
  CIProvider :: string

definition asString :: "val option \<Rightarrow> string" where
  "asString v = (case v of Some (VString s) \<Rightarrow> s | _ \<Rightarrow> [])"

definition asBool :: "val option \<Rightarrow> bool" where
  "asBool v = (case v of Some (VBool b) \<Rightarrow> b | _ \<Rightarrow> False)"

definition NewContext :: "string \<Rightarrow> string \<Rightarrow> (string \<rightharpoonup> val) \<Rightarrow> Template \<Rightarrow> Context" where
  "NewContext projectName outputDir variables tmpl =
     \<lparr> Context.ProjectName = projectName,
       Context.OutputDir = outputDir,
       Context.Variables = variables,
       Template = tmpl,
       PythonVersion = asString (variables ''PythonVersion''),
       IncludeDocker = asBool (variables ''IncludeDocker''),
       Database = asString (variables ''Database''),
       IncludeTests = asBool (variables ''IncludeTests''),
       CIProvider = asString (variables ''CIProvider'') \<rparr>"

definition GetBool :: "Context \<Rightarrow> string \<Rightarrow> bool" where
  "GetBool c key =
     (case Context.Variables c key of
        Some v \<Rightarrow> (case v of VBool b \<Rightarrow> b | _ \<Rightarrow> False)
      | None \<Rightarrow> False)"

section \<open>Inclusion conditions (\<^verbatim>\<open>internal/generator/generator.go\<close>)\<close>

text \<open>The first lines of \<^verbatim>\<open>evaluateCondition\<close>, which turn the condition into the
  key that is looked up. The slice \<^verbatim>\<open>condition[2 : len(condition)-2]\<close> is taken of a
  string that starts with two opening and ends with two closing braces, which has four
  bytes at least.\<close>

definition conditionKey :: "string \<Rightarrow> string" where
  "conditionKey condition =
     (let condition = TrimSpace condition;
          condition = TrimSpace condition;
          condition =
            (if HasPrefix condition ''{{'' \<and> HasSuffix condition ''}}''
             then TrimSpace (take (length condition - 2 - 2) (drop 2 condition))
             else condition)
      in TrimPrefix condition ''.'')"

definition evaluateCondition :: "string \<Rightarrow> Context \<Rightarrow> bool" where
  "evaluateCondition condition ctx =
     (let condition = conditionKey condition
      in if condition = ''IncludeDocker'' then IncludeDocker ctx
         else if condition = ''IncludeTests'' then IncludeTests ctx
         else GetBool ctx condition)"

fun conditionsLoop :: "string list \<Rightarrow> Context \<Rightarrow> bool" where
  "conditionsLoop [] ctx = True"
| "conditionsLoop (condition # rest) ctx =
     (if \<not> evaluateCondition condition ctx then False else conditionsLoop rest ctx)"

definition shouldGenerateFile :: "FileSpec \<Rightarrow> Context \<Rightarrow> bool" where
  "shouldGenerateFile fileSpec ctx =
     (if length (Conditions fileSpec) = 0 then True
      else conditionsLoop (Conditions fileSpec) ctx)"

section \<open>Requirement checking (package \<^verbatim>\<open>validator\<close>)\<close>

datatype ValidationLevel = ValidationNone | ValidationBasic | ValidationStrict

record Requirement =
  Command :: string
  Version :: string
  Required :: bool
  When :: string
  InstallHint :: string

text \<open>The message of a finding is built by \<^verbatim>\<open>fmt.Sprintf\<close>; it is modelled by its
  format (one constructor for each) and the arguments of the format.\<close>

datatype Message =
    ErrorChecking string string
  | NotFound string
  | ErrorComparing string error
  | DoesNotMatch string string string

record ValidationError =
  Command :: string
  Message :: Message
  InstallHint :: string

record ValidationResult =
  Errors :: "ValidationError list"
  Warnings :: "ValidationError list"

text \<open>
  The machine the validator runs on: \<open>LookPath cmd\<close> says whether
  \<^verbatim>\<open>exec.LookPath\<close> finds the command, and \<open>CommandVersion cmd\<close> is the text that
  \<^verbatim>\<open>getCommandVersion\<close> extracts from the output of the command (the empty string
  when it finds none). Both run outside the program and are parameters of the model.
\<close>

record System =
  LookPath :: "string \<Rightarrow> bool"
  CommandVersion :: "string \<Rightarrow> string"

text \<open>\<^verbatim>\<open>CheckCommand\<close> returns \<^verbatim>\<open>(exists, version, err)\<close>; the error is
  \<^verbatim>\<open>nil\<close> on both paths.\<close>

definition CheckCommand :: "System \<Rightarrow> string \<Rightarrow> bool \<times> string \<times> string option" where
  "CheckCommand sys cmd =
     (if \<not> LookPath sys cmd then (False, [], None)
      else (True, CommandVersion sys cmd, None))"

text \<open>The body of the loop of \<^verbatim>\<open>Validate\<close> for one requirement.\<close>

definition validateStep ::
    "ValidationLevel \<Rightarrow> System \<Rightarrow> Requirement \<Rightarrow> ValidationResult \<Rightarrow> ValidationResult" where
  "validateStep level sys req result =
     (case CheckCommand sys (Requirement.Command req) of
        (exists, version, Some err) \<Rightarrow>
          (let valErr = \<lparr> ValidationError.Command = Requirement.Command req,
                           Message = ErrorChecking (Requirement.Command req) err,
                           ValidationError.InstallHint = Requirement.InstallHint req \<rparr>
           in if Required req then result\<lparr> Errors := Errors result @ [valErr] \<rparr>
              else result\<lparr> Warnings := Warnings result @ [valErr] \<rparr>)
      | (exists, version, None) \<Rightarrow>
          if \<not> exists then
            (let valErr = \<lparr> ValidationError.Command = Requirement.Command req,
                             Message = NotFound (Requirement.Command req),
                             ValidationError.InstallHint = Requirement.InstallHint req \<rparr>
             in if Required req then result\<lparr> Errors := Errors result @ [valErr] \<rparr>
                else result\<lparr> Warnings := Warnings result @ [valErr] \<rparr>)
          else if Version req \<noteq> [] \<and> version \<noteq> [] then
            (case CompareVersion version (Version req) of
               Inl err \<Rightarrow>
                 (let valErr = \<lparr> ValidationError.Command = Requirement.Command req,
                                  Message = ErrorComparing (Requirement.Command req) err,
                                  ValidationError.InstallHint = Requirement.InstallHint req \<rparr>
                  in if level = ValidationStrict
                     then result\<lparr> Errors := Errors result @ [valErr] \<rparr>
                     else result\<lparr> Warnings := Warnings result @ [valErr] \<rparr>)
             | Inr matches \<Rightarrow>
                 if \<not> matches then
                   (let valErr = \<lparr> ValidationError.Command = Requirement.Command req,
                                    Message = DoesNotMatch (Requirement.Command req) version
                                                (Version req),
                                    ValidationError.InstallHint = Requirement.InstallHint req \<rparr>
                    in if level = ValidationStrict
                       then result\<lparr> Errors := Errors result @ [valErr] \<rparr>
                       else result\<lparr> Warnings := Warnings result @ [valErr] \<rparr>)
                 else result)
          else result)"

fun validateLoop ::
    "ValidationLevel \<Rightarrow> System \<Rightarrow> Requirement list \<Rightarrow> ValidationResult \<Rightarrow> ValidationResult" where
  "validateLoop level sys [] result = result"
| "validateLoop level sys (req # reqs) result =
     validateLoop level sys reqs (validateStep level sys req result)"

text \<open>\<^verbatim>\<open>Validate\<close> returns its result with a \<^verbatim>\<open>nil\<close> error always.\<close>

definition Validate :: "ValidationLevel \<Rightarrow> System \<Rightarrow> Requirement list \<Rightarrow> ValidationResult" where
  "Validate level sys reqs = validateLoop level sys reqs \<lparr> Errors = [], Warnings = [] \<rparr>"

text \<open>
  For the statements below, what one requirement finds on the machine: the command is
  absent; the command is present, a version is required and one is reported (the
  versions are compared); the comparison says that the versions do not match; the
  comparison gives anything but a match (no match, or a version that cannot be read).
\<close>

definition absent :: "System \<Rightarrow> Requirement \<Rightarrow> bool" where
  "absent sys req \<longleftrightarrow> \<not> LookPath sys (Requirement.Command req)"

definition versionChecked :: "System \<Rightarrow> Requirement \<Rightarrow> bool" where
  "versionChecked sys req \<longleftrightarrow>
     LookPath sys (Requirement.Command req) \<and> Version req \<noteq> []
       \<and> CommandVersion sys (Requirement.Command req) \<noteq> []"

definition mismatch :: "System \<Rightarrow> Requirement \<Rightarrow> bool" where
  "mismatch sys req \<longleftrightarrow>
     versionChecked sys req \<and>
     CompareVersion (CommandVersion sys (Requirement.Command req)) (Version req) = Inr False"

definition versionProblem :: "System \<Rightarrow> Requirement \<Rightarrow> bool" where
  "versionProblem sys req \<longleftrightarrow>
     versionChecked sys req \<and>
     CompareVersion (CommandVersion sys (Requirement.Command req)) (Version req) \<noteq> Inr True"

definition notFound :: "Requirement \<Rightarrow> ValidationError" where
  "notFound req =
     \<lparr> ValidationError.Command = Requirement.Command req,
       Message = NotFound (Requirement.Command req),
       ValidationError.InstallHint = Requirement.InstallHint req \<rparr>"

definition doesNotMatch :: "System \<Rightarrow> Requirement \<Rightarrow> ValidationError" where
  "doesNotMatch sys req =
     \<lparr> ValidationError.Command = Requirement.Command req,
       Message = DoesNotMatch (Requirement.Command req)
                   (CommandVersion sys (Requirement.Command req)) (Version req),
       ValidationError.InstallHint = Requirement.InstallHint req \<rparr>"

text \<open>A machine and requirements for examples: \<^verbatim>\<open>go\<close> is installed and reports
  version 1.21.0, nothing else is installed.\<close>

definition exampleSystem :: System where
  "exampleSystem = \<lparr> LookPath = (\<lambda>cmd. cmd = ''go''), CommandVersion = (\<lambda>cmd. ''1.21.0'') \<rparr>"

definition requirement :: "string \<Rightarrow> string \<Rightarrow> bool \<Rightarrow> string \<Rightarrow> Requirement" where
  "requirement cmd version required when =
     \<lparr> Requirement.Command = cmd, Version = version, Required = required, When = when,
       Requirement.InstallHint = [] \<rparr>"

section \<open>Project generation (\<^verbatim>\<open>internal/generator/generator.go\<close>)\<close>

record Options =
  ProjectName :: string
  Language :: string
  Framework :: string
  OutputDir :: string
  Variables :: "string \<rightharpoonup> val"
  DryRun :: bool

text \<open>
  What the generator calls outside the program, as parameters of the model. \<open>'fs\<close> is
  the state of the file system and \<open>'t\<close> a parsed template of package
  \<^verbatim>\<open>text/template\<close>. An operation that can fail returns the text of its error;
  \<open>MkdirAll\<close> and \<open>WriteFile\<close> return the file system they leave behind in both
  cases. \<open>Load\<close> is \<^verbatim>\<open>Loader.Load\<close>, which reads the template bundle and parses its
  YAML. \<open>Metadata\<close> is the text that \<^verbatim>\<open>createMetadataFile\<close> formats; the order of
  its variable lines is that of Go's map iteration.
\<close>

record ('fs, 't) World =
  Load :: "string \<Rightarrow> 'fs \<Rightarrow> string + Template"
  MkdirAll :: "string \<Rightarrow> nat \<Rightarrow> 'fs \<Rightarrow> string option \<times> 'fs"
  ReadFile :: "string \<Rightarrow> 'fs \<Rightarrow> string + string"
  WriteFile :: "string \<Rightarrow> string \<Rightarrow> nat \<Rightarrow> 'fs \<Rightarrow> string option \<times> 'fs"
  Join :: "string \<Rightarrow> string \<Rightarrow> string"
  Dir :: "string \<Rightarrow> string"
  Base :: "string \<Rightarrow> string"
  ParseTemplate :: "string \<Rightarrow> string \<Rightarrow> string + 't"
  ExecuteTemplate :: "'t \<Rightarrow> Context \<Rightarrow> string + string"
  Metadata :: "Context \<Rightarrow> Template \<Rightarrow> string"

text \<open>The errors of the renderer and of the generator, one constructor for each
  \<^verbatim>\<open>fmt.Errorf\<close> format.\<close>

datatype FileError =
    FailedToReadTemplate string
  | FailedToParseTemplate string
  | FailedToExecuteTemplate string
  | FailedToReadFile string
  | FailedToCreateDirectory string
  | FailedToWriteFile string

datatype GenerateError =
    FailedToLoadTemplate string
  | FailedToCreateProjectDirectory string
  | FailedToGenerateFile string FileError
  | FailedToCreateMetadataFile string

text \<open>The lines that the generator prints, one constructor for each format.\<close>

datatype Notice =
    Skipped string
  | WouldRender string string
  | WouldCopy string string
  | Created string

definition Render :: "('fs, 't) World \<Rightarrow> string \<Rightarrow> Context \<Rightarrow> 'fs \<Rightarrow> FileError + string" where
  "Render w templatePath ctx fs =
     (case ReadFile w templatePath fs of
        Inl err \<Rightarrow> Inl (FailedToReadTemplate err)
      | Inr content \<Rightarrow>
          (case ParseTemplate w (Base w templatePath) content of
             Inl err \<Rightarrow> Inl (FailedToParseTemplate err)
           | Inr tmpl \<Rightarrow>
               (case ExecuteTemplate w tmpl ctx of
                  Inl err \<Rightarrow> Inl (FailedToExecuteTemplate err)
                | Inr text \<Rightarrow> Inr text)))"

definition writeWithParents ::
    "('fs, 't) World \<Rightarrow> string \<Rightarrow> string \<Rightarrow> nat \<Rightarrow> 'fs \<Rightarrow> FileError option \<times> 'fs" where
  "writeWithParents w path content perm fs =
     (case MkdirAll w (Dir w path) 493 fs of
        (Some err, fs1) \<Rightarrow> (Some (FailedToCreateDirectory err), fs1)
      | (None, fs1) \<Rightarrow>
          (case WriteFile w path content perm fs1 of
             (Some err, fs2) \<Rightarrow> (Some (FailedToWriteFile err), fs2)
           | (None, fs2) \<Rightarrow> (None, fs2)))"

definition RenderToFile ::
    "('fs, 't) World \<Rightarrow> string \<Rightarrow> string \<Rightarrow> Context \<Rightarrow> nat \<Rightarrow> 'fs \<Rightarrow> FileError option \<times> 'fs" where
  "RenderToFile w templatePath outputPath ctx perm fs =
     (case Render w templatePath ctx fs of
        Inl err \<Rightarrow> (Some err, fs)
      | Inr content \<Rightarrow> writeWithParents w outputPath content perm fs)"

definition CopyFile ::
    "('fs, 't) World \<Rightarrow> string \<Rightarrow> string \<Rightarrow> nat \<Rightarrow> 'fs \<Rightarrow> FileError option \<times> 'fs" where
  "CopyFile w srcPath dstPath perm fs =
     (case ReadFile w srcPath fs of
        Inl err \<Rightarrow> (Some (FailedToReadFile err), fs)
      | Inr content \<Rightarrow> writeWithParents w dstPath content perm fs)"

definition GetFilesDir :: "('fs, 't) World \<Rightarrow> Template \<Rightarrow> string" where
  "GetFilesDir w tmpl = Join w (Path tmpl) ''files''"

text \<open>\<^verbatim>\<open>generateFile\<close>, on the file system and the lines printed so far.\<close>

definition generateFile ::
    "('fs, 't) World \<Rightarrow> string \<Rightarrow> FileSpec \<Rightarrow> Context \<Rightarrow> bool \<Rightarrow> 'fs \<Rightarrow> Notice list
       \<Rightarrow> FileError option \<times> 'fs \<times> Notice list" where
  "generateFile w filesDir fileSpec ctx dryRun fs out =
     (let sourcePath = Join w filesDir (Source fileSpec);
          destPath = Join w (Context.OutputDir ctx) (Destination fileSpec)
      in if ShouldRender (Source fileSpec) then
           (let actualDest =
                  Join w (Context.OutputDir ctx) (GetOutputFilename (Destination fileSpec))
            in if dryRun then (None, fs, out @ [WouldRender (Source fileSpec) actualDest])
               else (case RenderToFile w sourcePath actualDest ctx (GetPermissions fileSpec) fs of
                       (Some err, fs') \<Rightarrow> (Some err, fs', out)
                     | (None, fs') \<Rightarrow> (None, fs', out @ [Created actualDest])))
         else
           (if dryRun then (None, fs, out @ [WouldCopy (Source fileSpec) destPath])
            else (case CopyFile w sourcePath destPath (GetPermissions fileSpec) fs of
                    (Some err, fs') \<Rightarrow> (Some err, fs', out)
                  | (None, fs') \<Rightarrow> (None, fs', out @ [Created destPath]))))"

definition mergeVariables :: "Template \<Rightarrow> (string \<rightharpoonup> val) \<Rightarrow> (string \<rightharpoonup> val)" where
  "mergeVariables tmpl userVars =
     (\<lambda>key. case userVars key of
               Some v \<Rightarrow> Some v
             | None \<Rightarrow> (case Template.Variables tmpl key of
                          Some varDef \<Rightarrow> Default varDef
                        | None \<Rightarrow> None))"

definition createMetadataFile ::
    "('fs, 't) World \<Rightarrow> Context \<Rightarrow> Template \<Rightarrow> 'fs \<Rightarrow> string option \<times> 'fs" where
  "createMetadataFile w ctx tmpl fs =
     WriteFile w (Join w (Context.OutputDir ctx) ''.devinit.yaml'') (Metadata w ctx tmpl) 420 fs"

text \<open>The loop of \<^verbatim>\<open>Generate\<close> over the files of the template.\<close>

fun generateFiles ::
    "('fs, 't) World \<Rightarrow> string \<Rightarrow> FileSpec list \<Rightarrow> Context \<Rightarrow> bool \<Rightarrow> 'fs \<Rightarrow> Notice list
       \<Rightarrow> GenerateError option \<times> 'fs \<times> Notice list" where
  "generateFiles w filesDir [] ctx dryRun fs out = (None, fs, out)"
| "generateFiles w filesDir (fileSpec # rest) ctx dryRun fs out =
     (if \<not> shouldGenerateFile fileSpec ctx then
        generateFiles w filesDir rest ctx dryRun fs
          (if dryRun then out @ [Skipped (Destination fileSpec)] else out)
      else
        (case generateFile w filesDir fileSpec ctx dryRun fs out of
           (Some err, fs', out') \<Rightarrow>
             (Some (FailedToGenerateFile (Destination fileSpec) err), fs', out')
         | (None, fs', out') \<Rightarrow> generateFiles w filesDir rest ctx dryRun fs' out'))"

definition Generate ::
    "('fs, 't) World \<Rightarrow> Options \<Rightarrow> 'fs \<Rightarrow> Notice list
       \<Rightarrow> GenerateError option \<times> 'fs \<times> Notice list" where
  "Generate w opts fs out =
     (let templateName = Language opts @ ''/'' @ Framework opts
      in case Load w templateName fs of
           Inl err \<Rightarrow> (Some (FailedToLoadTemplate err), fs, out)
         | Inr tmpl \<Rightarrow>
             (let variables = mergeVariables tmpl (Variables opts);
                  outputDir = (if OutputDir opts = [] then ProjectName opts else OutputDir opts);
                  ctx = NewContext (ProjectName opts) outputDir variables tmpl
              in case (if \<not> DryRun opts then MkdirAll w outputDir 493 fs else (None, fs)) of
                   (Some err, fs1) \<Rightarrow> (Some (FailedToCreateProjectDirectory err), fs1, out)
                 | (None, fs1) \<Rightarrow>
                     (case generateFiles w (GetFilesDir w tmpl) (Files tmpl) ctx (DryRun opts)
                             fs1 out of
                        (Some err, fs2, out2) \<Rightarrow> (Some err, fs2, out2)
                      | (None, fs2, out2) \<Rightarrow>
                          if \<not> DryRun opts then
                            (case createMetadataFile w ctx tmpl fs2 of
                               (Some err, fs3) \<Rightarrow>
                                 (Some (FailedToCreateMetadataFile err), fs3, out2)
                             | (None, fs3) \<Rightarrow> (None, fs3, out2))
                          else (None, fs2, out2))))"

text \<open>For the statements below: the paths of the files that the printed lines report
  as would-be rendered or copied, and as created.\<close>

fun reported :: "Notice list \<Rightarrow> string list" where
  "reported [] = []"
| "reported (WouldRender src dest # ns) = dest # reported ns"
| "reported (WouldCopy src dest # ns) = dest # reported ns"
| "reported (n # ns) = reported ns"

fun created :: "Notice list \<Rightarrow> string list" where
  "created [] = []"
| "created (Created dest # ns) = dest # created ns"
| "created (n # ns) = created ns"

text \<open>The path at which a file of the template is written.\<close>

definition target :: "('fs, 't) World \<Rightarrow> Context \<Rightarrow> FileSpec \<Rightarrow> string" where
  "target w ctx fileSpec =
     (if ShouldRender (Source fileSpec)
      then Join w (Context.OutputDir ctx) (GetOutputFilename (Destination fileSpec))
      else Join w (Context.OutputDir ctx) (Destination fileSpec))"

text \<open>The line that a dry run prints for a file of the template.\<close>

definition dryNotice :: "('fs, 't) World \<Rightarrow> Context \<Rightarrow> FileSpec \<Rightarrow> Notice" where
  "dryNotice w ctx fileSpec =
     (if \<not> shouldGenerateFile fileSpec ctx then Skipped (Destination fileSpec)
      else if ShouldRender (Source fileSpec)
        then WouldRender (Source fileSpec) (target w ctx fileSpec)
        else WouldCopy (Source fileSpec) (target w ctx fileSpec))"

text \<open>The context that \<^verbatim>\<open>Generate\<close> builds for a loaded template.\<close>

definition contextOf :: "Options \<Rightarrow> Template \<Rightarrow> Context" where
  "contextOf opts tmpl =
     NewContext (ProjectName opts)
       (if OutputDir opts = [] then ProjectName opts else OutputDir opts)
       (mergeVariables tmpl (Variables opts)) tmpl"

text \<open>The files of the template whose conditions hold, in order, and the path of the
  metadata file.\<close>

definition included :: "Context \<Rightarrow> FileSpec list \<Rightarrow> FileSpec list" where
  "included ctx files = filter (\<lambda>fileSpec. shouldGenerateFile fileSpec ctx) files"

definition metadataPath :: "('fs, 't) World \<Rightarrow> Context \<Rightarrow> string" where
  "metadataPath w ctx = Join w (Context.OutputDir ctx) ''.devinit.yaml''"

text \<open>
  What a run does to the file system: \<open>writes w fs ps fs'\<close> says that \<open>fs'\<close> comes from
  \<open>fs\<close> by calls of \<open>MkdirAll\<close> and \<open>WriteFile\<close>, and that \<open>ps\<close> are the paths of the
  calls of \<open>WriteFile\<close> that succeeded, in order. A call of \<open>WriteFile\<close> that fails
  returns the file system it leaves behind, which need not be the one it started from.
\<close>

inductive writes :: "('fs, 't) World \<Rightarrow> 'fs \<Rightarrow> string list \<Rightarrow> 'fs \<Rightarrow> bool"
  for w :: "('fs, 't) World" where
  stay: "writes w fs [] fs"
| mkdir: "writes w fs ps fs1 \<Longrightarrow> MkdirAll w dir perm fs1 = (err, fs2) \<Longrightarrow> writes w fs ps fs2"
| written: "writes w fs ps fs1 \<Longrightarrow> WriteFile w path content perm fs1 = (None, fs2)
     \<Longrightarrow> writes w fs (ps @ [path]) fs2"
| failed: "writes w fs ps fs1 \<Longrightarrow> WriteFile w path content perm fs1 = (Some err, fs2)
     \<Longrightarrow> writes w fs ps fs2"

text \<open>
  A world for examples. Its file system is the list of the paths written so far, in
  order. The template \<^verbatim>\<open>go/cli\<close> has two template files; the template \<^verbatim>\<open>go/api\<close>
  has a template file, a static \<^verbatim>\<open>Dockerfile\<close> under the condition
  \<^verbatim>\<open>{{ .IncludeDocker }}\<close> and a static \<^verbatim>\<open>go.mod\<close>. Reading a file gives its path as
  content, but the \<^verbatim>\<open>Dockerfile\<close> cannot be read; parsing fails on \<^verbatim>\<open>b.tmpl\<close>.
\<close>

definition exampleTemplate :: Template where
  "exampleTemplate =
     \<lparr> Template.Version = ''1'', Name = ''cli'', Template.Language = ''go'',
       Template.Framework = ''cli'', Template.Variables = Map.empty,
       Files = [\<lparr> Source = ''a.tmpl'', Destination = ''a.tmpl'', Conditions = [],
                  Permissions = [] \<rparr>,
                \<lparr> Source = ''b.tmpl'', Destination = ''b.tmpl'', Conditions = [],
                  Permissions = [] \<rparr>],
       Path = ''t'' \<rparr>"

definition mainFile :: FileSpec where
  "mainFile = \<lparr> Source = ''main.go.tmpl'', Destination = ''main.go.tmpl'', Conditions = [],
                Permissions = [] \<rparr>"

definition dockerFile :: FileSpec where
  "dockerFile = \<lparr> Source = ''Dockerfile'', Destination = ''Dockerfile'',
                  Conditions = [''{{ .IncludeDocker }}''], Permissions = [] \<rparr>"

definition modFile :: FileSpec where
  "modFile = \<lparr> Source = ''go.mod'', Destination = ''go.mod'', Conditions = [],
               Permissions = [] \<rparr>"

definition apiTemplate :: Template where
  "apiTemplate =
     \<lparr> Template.Version = ''1'', Name = ''api'', Template.Language = ''go'',
       Template.Framework = ''api'', Template.Variables = Map.empty,
       Files = [mainFile, dockerFile, modFile],
       Path = ''u'' \<rparr>"

definition exampleWorld :: "(string list, string) World" where
  "exampleWorld =
     \<lparr> Load = (\<lambda>name fs. if name = ''go/cli'' then Inr exampleTemplate
                        else if name = ''go/api'' then Inr apiTemplate
                        else Inl ''not found''),
       MkdirAll = (\<lambda>path perm fs. (None, fs)),
       ReadFile = (\<lambda>path fs. if path = ''u/files/Dockerfile'' then Inl ''unreadable''
                              else Inr path),
       WriteFile = (\<lambda>path content perm fs. (None, fs @ [path])),
       Join = (\<lambda>a b. a @ ''/'' @ b),
       Dir = (\<lambda>path. path),
       Base = (\<lambda>path. path),
       ParseTemplate = (\<lambda>name content. if name = ''t/files/b.tmpl'' then Inl ''syntax''
                                        else Inr content),
       ExecuteTemplate = (\<lambda>tmpl ctx. Inr tmpl),
       Metadata = (\<lambda>ctx tmpl. []) \<rparr>"

definition exampleOptions :: "bool \<Rightarrow> Options" where
  "exampleOptions dry =
     \<lparr> ProjectName = ''p'', Language = ''go'', Framework = ''cli'', OutputDir = [],
       Variables = Map.empty, DryRun = dry \<rparr>"

definition apiOptions :: "bool \<Rightarrow> bool \<Rightarrow> Options" where
  "apiOptions docker dry =
     \<lparr> ProjectName = ''p'', Language = ''go'', Framework = ''api'', OutputDir = [],
       Variables = [''IncludeDocker'' \<mapsto> VBool docker], DryRun = dry \<rparr>"

text \<open>The condition \<^verbatim>\<open>database != 'none'\<close>, a compound expression (the byte 0x27 is the
  single quote).\<close>

definition compoundCondition :: string where
  "compoundCondition = ''database != '' @ [CHR 0x27] @ ''none'' @ [CHR 0x27]"

section \<open>Properties of the string functions\<close>

declare TrimLeftSpace.simps [simp del] TrimRightSpace.simps [simp del]

lemma spaceByte_cases:
  "spaceByte c \<Longrightarrow> \<not> isDigit c \<and> c \<notin> set ''.v+-><=^~{}''"
  by (auto simp: spaceByte_def spaceEncodings_def isDigit_def)

lemma enc_junk: "e \<in> set spaceEncodings \<Longrightarrow> e \<noteq> [] \<and> (\<forall>c \<in> set e. spaceByte c)"
  by (auto simp: spaceByte_def)  (auto simp: spaceEncodings_def)

lemma HasPrefix_hd: "HasPrefix s e \<Longrightarrow> e \<noteq> [] \<Longrightarrow> s \<noteq> [] \<and> hd s = hd e"
  by (cases e; cases s) (auto simp: HasPrefix_def)

lemma HasSuffix_iff: "HasSuffix s e \<longleftrightarrow> (\<exists>t. s = t @ e)"
  by (auto simp: HasSuffix_def) (metis append_take_drop_id)

lemma leadingSpace_0: "s = [] \<or> \<not> spaceByte (hd s) \<Longrightarrow> leadingSpace s = 0"
proof -
  assume a: "s = [] \<or> \<not> spaceByte (hd s)"
  have "\<not> HasPrefix s e" if "e \<in> set spaceEncodings" for e
  proof
    assume "HasPrefix s e"
    with enc_junk [OF that] HasPrefix_hd [of s e] have "s \<noteq> []" "spaceByte (hd s)"
      by auto
    with a show False by simp
  qed
  then have "find (HasPrefix s) spaceEncodings = None"
    by (simp add: find_None_iff)
  then show ?thesis by (simp add: leadingSpace_def)
qed

lemma TrimLeftSpace_id: "s = [] \<or> \<not> spaceByte (hd s) \<Longrightarrow> TrimLeftSpace s = s"
  by (subst TrimLeftSpace.simps) (simp add: leadingSpace_0)

lemma trailingSpace_cases:
  obtains "trailingSpace s = 0"
  | t e where "s = t @ e" "e \<in> set spaceEncodings" "trailingSpace s = length e"
proof (cases "find (HasSuffix s) spaceEncodings")
  case None
  then show ?thesis using that(1) by (simp add: trailingSpace_def)
next
  case (Some e)
  then have "e \<in> set spaceEncodings" "HasSuffix s e"
    by (auto simp: find_Some_iff)
  with Some show ?thesis using that(2) by (auto simp: trailingSpace_def HasSuffix_iff)
qed

lemma HasSuffix_append_left:
  assumes "a \<noteq> []" "\<not> spaceByte (last a)" "e \<in> set spaceEncodings"
  shows "HasSuffix (a @ b) e \<longleftrightarrow> HasSuffix b e"
proof (cases "length e \<le> length b")
  case True
  then show ?thesis by (simp add: HasSuffix_def)
next
  case False
  have "\<not> HasSuffix (a @ b) e"
  proof
    assume h: "HasSuffix (a @ b) e"
    define n where "n = length a + length b - length e"
    from h False have n: "n < length a" and e: "e = drop n a @ b"
      by (auto simp: HasSuffix_def n_def)
    from n have "drop n a \<noteq> []" by simp
    then have "last (drop n a) \<in> set (drop n a)" by (rule last_in_set)
    moreover from n have "last (drop n a) = last a" by simp
    ultimately have "last a \<in> set e" using e by simp
    with enc_junk [OF assms(3)] assms(2) show False by auto
  qed
  with False show ?thesis by (simp add: HasSuffix_def)
qed

lemma trailingSpace_append_left:
  assumes "a \<noteq> []" "\<not> spaceByte (last a)"
  shows "trailingSpace (a @ b) = trailingSpace b"
proof -
  have "find (HasSuffix (a @ b)) spaceEncodings = find (HasSuffix b) spaceEncodings"
    by (rule find_cong) (simp_all add: HasSuffix_append_left [OF assms])
  then show ?thesis by (simp add: trailingSpace_def)
qed

lemma trailingSpace_le: "trailingSpace s \<le> length s"
  by (rule trailingSpace_cases [of s]) auto

lemma TrimRightSpace_append_left:
  assumes "a \<noteq> []" "\<not> spaceByte (last a)"
  shows "TrimRightSpace (a @ b) = a @ TrimRightSpace b"
proof (induction b rule: TrimRightSpace.induct)
  case (1 s)
  show ?case
  proof (cases "trailingSpace s = 0")
    case True
    then show ?thesis
      by (subst TrimRightSpace.simps, subst (2) TrimRightSpace.simps)
         (simp add: trailingSpace_append_left [OF assms])
  next
    case False
    have "TrimRightSpace (a @ s) = TrimRightSpace (a @ take (length s - trailingSpace s) s)"
      using False trailingSpace_le [of s]
      by (subst TrimRightSpace.simps) (simp add: trailingSpace_append_left [OF assms])
    also have "\<dots> = a @ TrimRightSpace (take (length s - trailingSpace s) s)"
      using 1 False by simp
    also have "\<dots> = a @ TrimRightSpace s"
      using False by (subst (2) TrimRightSpace.simps) simp
    finally show ?thesis .
  qed
qed

lemma Split_not_Nil: "Split s c \<noteq> []"
proof (induction s)
  case Nil
  show ?case by simp
next
  case (Cons x xs)
  then show ?case by (cases "Split xs c") simp_all
qed

lemma Split_append_junk:
  "c \<notin> set e \<Longrightarrow> Split (s @ e) c = butlast (Split s c) @ [last (Split s c) @ e]"
proof (induction s)
  case Nil
  then show ?case by (induction e) auto
next
  case (Cons x xs)
  obtain p ps where p: "Split xs c = p # ps"
    using Split_not_Nil [of xs c] by (cases "Split xs c") auto
  obtain q qs where q: "Split (xs @ e) c = q # qs"
    using Split_not_Nil [of "xs @ e" c] by (cases "Split (xs @ e) c") auto
  from Cons p q show ?case
    by (cases ps) (auto split: if_splits)
qed

lemma parseUint_digits: "parseUint n ds = Inr m \<Longrightarrow> list_all isDigit ds"
  by (induction ds arbitrary: n) (auto split: if_splits)

lemma Atoi_Inr_digits:
  assumes "Atoi s = Inr n"
  shows "s \<noteq> []"
    and "(if hd s = CHR ''-'' \<or> hd s = CHR ''+'' then tl s else s) \<noteq> []"
    and "list_all isDigit (if hd s = CHR ''-'' \<or> hd s = CHR ''+'' then tl s else s)"
proof -
  let ?ds = "if hd s = CHR ''-'' \<or> hd s = CHR ''+'' then tl s else s"
  from assms show s: "s \<noteq> []" by (auto simp: Atoi_def)
  from assms s show d: "?ds \<noteq> []"
    by (auto simp: Atoi_def Let_def split: if_splits)
  from assms s d obtain un where "parseUint 0 ?ds = Inr un"
    by (cases "parseUint 0 ?ds") (simp_all add: Atoi_def Let_def)
  then show "list_all isDigit ?ds" by (rule parseUint_digits)
qed

lemma Atoi_junk:
  assumes "e \<noteq> []" "\<forall>c \<in> set e. spaceByte c"
  shows "Atoi (p @ e) \<noteq> Inr n"
proof
  assume a: "Atoi (p @ e) = Inr n"
  have nd: "\<not> list_all isDigit (q @ e)" for q
    using assms spaceByte_cases by (cases e) (auto simp: list_all_iff)
  have hd: "hd e \<noteq> CHR ''-''" "hd e \<noteq> CHR ''+''"
    using assms spaceByte_cases [of "hd e"] by (cases e; auto)+
  show False
  proof (cases p)
    case Nil
    with Atoi_Inr_digits(3) [OF a] hd nd [of "[]"] show False by simp
  next
    case (Cons a as)
    with Atoi_Inr_digits(3) [OF a] nd [of "a # as"] nd [of as] show False
      by (simp split: if_splits)
  qed
qed

lemma Split_hd: "hd (Split s c) = takeWhile (\<lambda>x. x \<noteq> c) s"
proof (induction s)
  case Nil
  show ?case by simp
next
  case (Cons x xs)
  then show ?case using Split_not_Nil [of xs c] by (cases "Split xs c") auto
qed


lemma Atoi_examples:
  "Atoi ''42'' = Inr 42"
  "Atoi ''-7'' = Inr (- 7)"
  "Atoi ''+'' = Inl ErrSyntax"
  "Atoi ''12x'' = Inl ErrSyntax"
  "Atoi ''9223372036854775807'' = Inr 9223372036854775807"
  "Atoi ''9223372036854775808'' = Inl ErrRange"
  "Atoi ''-9223372036854775808'' = Inr (- 9223372036854775808)"
  "Atoi ''99999999999999999999x'' = Inl ErrRange"
  "Atoi ''9999999999999999999x'' = Inl ErrSyntax"
  by (simp_all add: Atoi_def Let_def isDigit_def)

section \<open>Properties of the name casing\<close>

lemma separate_collapse_idem:
  assumes l1: "\<And>r. ToLower U (ToLower U r) = ToLower U r"
    and l2: "\<And>r. IsUpper U (ToLower U r) \<Longrightarrow> IsUpper U r"
    and l3: "ToLower U c = c"
  shows "(p \<longrightarrow> pos) \<Longrightarrow>
     collapseRuns c p (separateUpper U c pos (collapseRuns c p (separateUpper U c pos s)))
       = collapseRuns c p (separateUpper U c pos s)"
proof (induction s arbitrary: p pos)
  case Nil
  then show ?case by simp
next
  case (Cons r rs)
  have ih: "\<And>p. collapseRuns c p (separateUpper U c True (collapseRuns c p (separateUpper U c True rs)))
       = collapseRuns c p (separateUpper U c True rs)"
    using Cons.IH [of _ True] by simp
  show ?case
    using Cons.prems l1 l2 l3 ih
    by (auto simp: l1 l3)
qed

lemma separate_collapse_set:
  "set (collapseRuns c p (separateUpper U c pos s)) \<subseteq> insert c (ToLower U ` set s)"
  by (induction s arbitrary: p pos) auto



lemma ok_lower_idem: "unicode_ok U \<Longrightarrow> ToLower U (ToLower U r) = ToLower U r"
  unfolding unicode_ok_def by blast

lemma ok_upper_idem: "unicode_ok U \<Longrightarrow> ToUpper U (ToUpper U r) = ToUpper U r"
  unfolding unicode_ok_def by blast

lemma ok_upper_lower: "unicode_ok U \<Longrightarrow> IsUpper U (ToLower U r) \<Longrightarrow> IsUpper U r"
  unfolding unicode_ok_def by blast

lemma ok_sep_fixed: "unicode_ok U \<Longrightarrow> isSep r \<Longrightarrow> ToLower U r = r"
  unfolding unicode_ok_def by blast

lemma ok_lower_sep: "unicode_ok U \<Longrightarrow> isSep (ToLower U r) \<Longrightarrow> isSep r"
  unfolding unicode_ok_def by blast

lemma ok_upper_sep: "unicode_ok U \<Longrightarrow> isSep (ToUpper U r) \<Longrightarrow> isSep r"
  unfolding unicode_ok_def by blast

lemma replaceRune_absent: "old \<notin> set s \<Longrightarrow> replaceRune old new s = s"
  by (induction s) (auto simp: replaceRune_def)

lemma separate_collapse_replace:
  assumes ok: "unicode_ok U" and sc: "isSep c" and so: "isSep old" and ne: "old \<noteq> c"
  shows "collapseRuns c False (separateUpper U c False (replaceRune old c
           (collapseRuns c False (separateUpper U c False (replaceRune old c x)))))
         = collapseRuns c False (separateUpper U c False (replaceRune old c x))"
proof -
  let ?y = "collapseRuns c False (separateUpper U c False (replaceRune old c x))"
  have l3: "ToLower U c = c"
    using ok sc by (rule ok_sep_fixed)
  have l4: "ToLower U r \<noteq> old" if "r \<noteq> old" for r
  proof
    assume eq: "ToLower U r = old"
    then have "isSep r" using ok so ok_lower_sep by metis
    then have "ToLower U r = r" using ok ok_sep_fixed by metis
    with eq that show False by simp
  qed
  have "old \<notin> set (replaceRune old c x)"
    using ne by (auto simp: replaceRune_def)
  then have "old \<notin> ToLower U ` set (replaceRune old c x)"
    using l4 by (metis imageE)
  then have "old \<notin> set ?y"
    using separate_collapse_set [of c False U False "replaceRune old c x"] ne by blast
  then have "replaceRune old c ?y = ?y"
    by (rule replaceRune_absent)
  then show ?thesis
    using separate_collapse_idem [of U c False False "replaceRune old c x",
      OF ok_lower_idem [OF ok] ok_upper_lower [OF ok] l3]
    by simp
qed

lemma toSnakeCase_idem:
  assumes "unicode_ok U"
  shows "toSnakeCase U (toSnakeCase U x) = toSnakeCase U x"
  unfolding toSnakeCase_def
  by (rule separate_collapse_replace [OF assms]) (simp_all add: isSep_def)

lemma toKebabCase_idem:
  assumes "unicode_ok U"
  shows "toKebabCase U (toKebabCase U x) = toKebabCase U x"
  unfolding toKebabCase_def
  by (rule separate_collapse_replace [OF assms]) (simp_all add: isSep_def)

lemma splitSep_not_Nil: "splitSep s \<noteq> []"
proof (induction s)
  case Nil
  show ?case by simp
next
  case (Cons a s)
  note ih = Cons.IH
  show ?case
  proof (cases "isSep a")
    case True
    show ?thesis
    proof (cases s)
      case Nil
      with True show ?thesis by simp
    next
      case (Cons b t)
      with True have "splitSep (a # s) = (if isSep b then splitSep s else [] # splitSep s)"
        by simp
      with ih show ?thesis by (simp del: splitSep.simps)
    qed
  next
    case False
    then show ?thesis by (cases "splitSep s") simp_all
  qed
qed

lemma splitSep_parts_nosep: "p \<in> set (splitSep s) \<Longrightarrow> r \<in> set p \<Longrightarrow> \<not> isSep r"
proof (induction s arbitrary: p)
  case Nil
  then show ?case by simp
next
  case (Cons a s)
  show ?case
  proof (cases "isSep a")
    case True
    with Cons show ?thesis
      by (cases s) (auto split: if_splits)
  next
    case False
    obtain q qs where q: "splitSep s = q # qs"
      using splitSep_not_Nil [of s] by (cases "splitSep s") auto
    with Cons False show ?thesis
      by (fastforce split: if_splits)
  qed
qed

lemma splitSep_nosep: "\<forall>r \<in> set s. \<not> isSep r \<Longrightarrow> splitSep s = [s]"
  by (induction s) auto

lemma capitalize_nosep:
  assumes "unicode_ok U" and "\<forall>r \<in> set p. \<not> isSep r" and "r \<in> set (capitalize U p)"
  shows "\<not> isSep r"
proof (cases p)
  case Nil
  with assms show ?thesis by simp
next
  case (Cons a as)
  with assms ok_upper_sep [OF assms(1), of a] show ?thesis by auto
qed

lemma pascalLoop_nosep:
  "unicode_ok U \<Longrightarrow> \<forall>p \<in> set ps. \<forall>r \<in> set p. \<not> isSep r \<Longrightarrow>
     r \<in> set (pascalLoop U ps) \<Longrightarrow> \<not> isSep r"
  by (induction ps) (auto dest: capitalize_nosep split: if_splits)

lemma capitalize_pascalLoop:
  assumes "unicode_ok U"
  shows "capitalize U (pascalLoop U ps) = pascalLoop U ps"
proof (induction ps)
  case Nil
  then show ?case by simp
next
  case (Cons p ps)
  then show ?case
    by (cases p) (simp_all add: ok_upper_idem [OF assms])
qed

lemma toPascalCase_idem:
  assumes "unicode_ok U"
  shows "toPascalCase U (toPascalCase U x) = toPascalCase U x"
proof -
  have "\<forall>r \<in> set (toPascalCase U x). \<not> isSep r"
    unfolding toPascalCase_def
    using pascalLoop_nosep [OF assms, of "splitSep x"] splitSep_parts_nosep by blast
  then have "splitSep (toPascalCase U x) = [toPascalCase U x]"
    by (rule splitSep_nosep)
  then have "toPascalCase U (toPascalCase U x) =
      (if toPascalCase U x = [] then [] else capitalize U (toPascalCase U x))"
    by (simp add: toPascalCase_def [of U "toPascalCase U x"])
  also have "\<dots> = toPascalCase U x"
    using capitalize_pascalLoop [OF assms] by (simp add: toPascalCase_def)
  finally show ?thesis .
qed

lemma camelLoop_nosep:
  assumes ok: "unicode_ok U"
  shows "\<forall>p \<in> set ps. \<forall>r \<in> set p. \<not> isSep r \<Longrightarrow>
     r \<in> set (camelLoop U i ps) \<Longrightarrow> \<not> isSep r"
proof (induction ps arbitrary: i)
  case Nil
  then show ?case by simp
next
  case (Cons p ps)
  have low: "\<And>q. q \<in> set p \<Longrightarrow> \<not> isSep (ToLower U q)"
    using Cons.prems(1) ok_lower_sep [OF ok] by auto
  have cap: "r \<in> set (capitalize U p) \<Longrightarrow> \<not> isSep r"
    using capitalize_nosep [OF ok, of p r] Cons.prems(1) by simp
  have rest: "\<And>j. r \<in> set (camelLoop U j ps) \<Longrightarrow> \<not> isSep r"
    using Cons.IH Cons.prems(1) by simp
  show ?case
    using Cons.prems(2) low cap rest
    by (auto split: if_splits)
qed

lemma toCamelCase_twice:
  assumes "unicode_ok U"
  shows "toCamelCase U (toCamelCase U x) = map (ToLower U) (toCamelCase U x)"
proof -
  have "\<forall>r \<in> set (toCamelCase U x). \<not> isSep r"
    unfolding toCamelCase_def Let_def
    using camelLoop_nosep [OF assms, of "splitSep x" _ 0] splitSep_parts_nosep by auto
  then have "splitSep (toCamelCase U x) = [toCamelCase U x]"
    by (rule splitSep_nosep)
  then show ?thesis
    by (simp add: toCamelCase_def [of U "toCamelCase U x"])
qed

lemma ascii_ok: "unicode_ok ascii"
  by (auto simp: unicode_ok_def ascii_def isSep_def)

lemma ascii_compatible_ascii: "ascii_compatible ascii"
  by (simp add: ascii_compatible_def)

lemma ascii_values:
  assumes "ascii_compatible U" and "r < 128"
  shows "IsUpper U r = (65 \<le> r \<and> r \<le> 90)"
    and "ToLower U r = (if 65 \<le> r \<and> r \<le> 90 then r + 32 else r)"
    and "ToUpper U r = (if 97 \<le> r \<and> r \<le> 122 then r - 32 else r)"
  using assms by (simp_all add: ascii_compatible_def ascii_def)

text \<open>
  Claim C4, as the code has it. \<^verbatim>\<open>toSnakeCase\<close> puts an underscore before every
  upper-case letter but the first one, so \<^verbatim>\<open>MyAPI-Project\<close> becomes
  \<^verbatim>\<open>my_a_p_i_project\<close>; the other three values are those of the claim:
  \<^verbatim>\<open>toCamelCase("my-api-project") = "myApiProject"\<close>,
  \<^verbatim>\<open>toPascalCase("my_api_project") = "MyApiProject"\<close> and
  \<^verbatim>\<open>toKebabCase("MyAPIProject") = "my-a-p-i-project"\<close>. This holds for all tables
  that are right on ASCII.
\<close>

theorem casing_values:
  assumes "ascii_compatible U"
  shows "toSnakeCase U (runes ''MyAPI-Project'') = runes ''my_a_p_i_project'' \<and>
         toCamelCase U (runes ''my-api-project'') = runes ''myApiProject'' \<and>
         toPascalCase U (runes ''my_api_project'') = runes ''MyApiProject'' \<and>
         toKebabCase U (runes ''MyAPIProject'') = runes ''my-a-p-i-project''"
  by (simp add: toSnakeCase_def toCamelCase_def toPascalCase_def toKebabCase_def runes_def
      replaceRune_def isSep_def ascii_values [OF assms])

theorem casing_values_witness:
  "ascii_compatible ascii \<and>
   toSnakeCase ascii (runes ''MyAPI-Project'') = runes ''my_a_p_i_project'' \<and>
   toCamelCase ascii (runes ''my-api-project'') = runes ''myApiProject'' \<and>
   toPascalCase ascii (runes ''my_api_project'') = runes ''MyApiProject'' \<and>
   toKebabCase ascii (runes ''MyAPIProject'') = runes ''my-a-p-i-project''"
  using casing_values [OF ascii_compatible_ascii] ascii_compatible_ascii by simp

text \<open>The value that claim C4 gives for \<^verbatim>\<open>toSnakeCase("MyAPI-Project")\<close> is not
  the value of the function.\<close>

theorem toSnakeCase_not_my_api_project:
  "toSnakeCase ascii (runes ''MyAPI-Project'') \<noteq> runes ''my_api_project''"
  by (simp add: toSnakeCase_def runes_def replaceRune_def ascii_def)

text \<open>
  Claim C5, as the code has it. For tables that satisfy \<open>unicode_ok\<close>,
  \<^verbatim>\<open>toSnakeCase\<close>, \<^verbatim>\<open>toKebabCase\<close> and \<^verbatim>\<open>toPascalCase\<close> are idempotent.
  \<^verbatim>\<open>toCamelCase\<close> puts its own result, which has no separator and is one part, in
  lower case: a second application is the lower case of the first, and the function is
  idempotent from the second application on.
\<close>

theorem casing_idempotence:
  assumes "unicode_ok U"
  shows "toSnakeCase U (toSnakeCase U x) = toSnakeCase U x \<and>
         toKebabCase U (toKebabCase U x) = toKebabCase U x \<and>
         toPascalCase U (toPascalCase U x) = toPascalCase U x \<and>
         toCamelCase U (toCamelCase U x) = map (ToLower U) (toCamelCase U x) \<and>
         toCamelCase U (toCamelCase U (toCamelCase U x)) = toCamelCase U (toCamelCase U x)"
proof -
  have two: "toCamelCase U (toCamelCase U x) = map (ToLower U) (toCamelCase U x)"
    by (rule toCamelCase_twice [OF assms])
  have "toCamelCase U (toCamelCase U (toCamelCase U x))
      = map (ToLower U) (toCamelCase U (toCamelCase U x))"
    by (rule toCamelCase_twice [OF assms])
  also have "\<dots> = map (ToLower U) (map (ToLower U) (toCamelCase U x))"
    by (simp only: two)
  also have "\<dots> = map (ToLower U) (toCamelCase U x)"
    by (simp add: ok_lower_idem [OF assms])
  also have "\<dots> = toCamelCase U (toCamelCase U x)"
    by (simp only: two)
  finally have three:
    "toCamelCase U (toCamelCase U (toCamelCase U x)) = toCamelCase U (toCamelCase U x)" .
  show ?thesis
    using two three toSnakeCase_idem [OF assms] toKebabCase_idem [OF assms]
      toPascalCase_idem [OF assms]
    by blast
qed

theorem casing_idempotence_witness:
  "unicode_ok ascii \<and>
   toSnakeCase ascii (toSnakeCase ascii (runes ''MyAPI-Project''))
     = toSnakeCase ascii (runes ''MyAPI-Project'') \<and>
   toCamelCase ascii (toCamelCase ascii (runes ''my-api-project'')) = runes ''myapiproject''"
  using casing_idempotence [OF ascii_ok, of "runes ''MyAPI-Project''"]
    casing_idempotence [OF ascii_ok, of "runes ''my-api-project''"] ascii_ok
  by (simp add: toCamelCase_def runes_def isSep_def ascii_def)

text \<open>\<^verbatim>\<open>toCamelCase\<close> is not idempotent: applied to its result
  \<^verbatim>\<open>myApiProject\<close> it gives \<^verbatim>\<open>myapiproject\<close>.\<close>

theorem toCamelCase_not_idempotent:
  "toCamelCase ascii (toCamelCase ascii (runes ''my-api-project''))
     \<noteq> toCamelCase ascii (runes ''my-api-project'')"
  by (simp add: toCamelCase_def runes_def isSep_def ascii_def)

section \<open>Properties of the renderer's file names\<close>

lemma HasSuffix_append: "HasSuffix (s @ p) p"
  by (simp add: HasSuffix_def)

lemma HasSuffix_decompose: "HasSuffix s p \<Longrightarrow> s = TrimSuffix s p @ p"
  by (auto simp: HasSuffix_def TrimSuffix_def) (metis append_take_drop_id)

lemma GetOutputFilename_length:
  "HasSuffix f ''.tmpl'' \<Longrightarrow> length (GetOutputFilename f) < length f"
  by (auto simp: GetOutputFilename_def TrimSuffix_def HasSuffix_def)

text \<open>
  Claim C7, as the code has it. A file name that does not end in \<^verbatim>\<open>.tmpl\<close> is
  returned unchanged. The suffix is removed once only, so a second application returns
  the result of the first exactly when that result does not end in \<^verbatim>\<open>.tmpl\<close>
  again; in particular it does for every name that does not end in
  \<^verbatim>\<open>.tmpl.tmpl\<close>.
\<close>

theorem GetOutputFilename_twice:
  "(\<not> HasSuffix f ''.tmpl'' \<longrightarrow> GetOutputFilename f = f) \<and>
   (GetOutputFilename (GetOutputFilename f) = GetOutputFilename f
      \<longleftrightarrow> \<not> HasSuffix (GetOutputFilename f) ''.tmpl'') \<and>
   (\<not> HasSuffix f ''.tmpl.tmpl'' \<longrightarrow>
      GetOutputFilename (GetOutputFilename f) = GetOutputFilename f)"
proof (intro conjI impI)
  assume "\<not> HasSuffix f ''.tmpl''"
  then show "GetOutputFilename f = f"
    by (simp add: GetOutputFilename_def)
next
  show "GetOutputFilename (GetOutputFilename f) = GetOutputFilename f
      \<longleftrightarrow> \<not> HasSuffix (GetOutputFilename f) ''.tmpl''"
  proof (cases "HasSuffix (GetOutputFilename f) ''.tmpl''")
    case True
    from GetOutputFilename_length [OF True] True show ?thesis by auto
  next
    case False
    then show ?thesis by (simp add: GetOutputFilename_def [of "GetOutputFilename f"])
  qed
next
  assume no2: "\<not> HasSuffix f ''.tmpl.tmpl''"
  show "GetOutputFilename (GetOutputFilename f) = GetOutputFilename f"
  proof (cases "HasSuffix f ''.tmpl''")
    case False
    then show ?thesis by (simp add: GetOutputFilename_def)
  next
    case True
    have "\<not> HasSuffix (GetOutputFilename f) ''.tmpl''"
    proof
      assume again: "HasSuffix (GetOutputFilename f) ''.tmpl''"
      have f1: "f = GetOutputFilename f @ ''.tmpl''"
        using HasSuffix_decompose [OF True] True by (simp add: GetOutputFilename_def)
      have f2: "GetOutputFilename f = TrimSuffix (GetOutputFilename f) ''.tmpl'' @ ''.tmpl''"
        by (rule HasSuffix_decompose [OF again])
      have "f = TrimSuffix (GetOutputFilename f) ''.tmpl'' @ ''.tmpl.tmpl''"
        by (subst f1, subst f2) simp
      then have "HasSuffix f ''.tmpl.tmpl''"
        by (metis HasSuffix_append)
      with no2 show False by simp
    qed
    then show ?thesis by (simp add: GetOutputFilename_def [of "GetOutputFilename f"])
  qed
qed

theorem GetOutputFilename_twice_witness:
  "\<not> HasSuffix ''main.py'' ''.tmpl'' \<and> GetOutputFilename ''main.py'' = ''main.py'' \<and>
   \<not> HasSuffix ''main.py.tmpl'' ''.tmpl.tmpl'' \<and>
   GetOutputFilename (GetOutputFilename ''main.py.tmpl'') = GetOutputFilename ''main.py.tmpl'' \<and>
   GetOutputFilename ''main.py.tmpl'' = ''main.py''"
  using GetOutputFilename_twice [of "''main.py''"] GetOutputFilename_twice [of "''main.py.tmpl''"]
  by (simp add: HasSuffix_def GetOutputFilename_def TrimSuffix_def)

text \<open>Applying the function twice is not applying it once on a doubled suffix.\<close>

theorem GetOutputFilename_not_idempotent:
  "GetOutputFilename (GetOutputFilename ''a.tmpl.tmpl'') \<noteq> GetOutputFilename ''a.tmpl.tmpl''"
  by (simp add: HasSuffix_def GetOutputFilename_def TrimSuffix_def)

section \<open>Properties of the version comparison\<close>

declare parseLoop.simps [simp del] compareLoop.simps [simp del]

lemma parseLoop_3: "parseLoop parts 3 res = Inr res"
  by (subst parseLoop.simps) simp

lemma parseLoop_step:
  "i < 3 \<Longrightarrow> parseLoop parts i res =
     (case Comp parts i of Inl err \<Rightarrow> Inl (InvalidComponent (parts ! i) err)
      | Inr num \<Rightarrow> parseLoop parts (i + 1) (res[i := num]))"
  by (subst parseLoop.simps) (simp add: Comp_def)

lemma parseLoop_closed:
  "parseLoop parts 0 [a, b, c] =
     (case Comp parts 0 of Inl err \<Rightarrow> Inl (InvalidComponent (parts ! 0) err)
      | Inr x \<Rightarrow>
     (case Comp parts 1 of Inl err \<Rightarrow> Inl (InvalidComponent (parts ! 1) err)
      | Inr y \<Rightarrow>
     (case Comp parts 2 of Inl err \<Rightarrow> Inl (InvalidComponent (parts ! 2) err)
      | Inr z \<Rightarrow> Inr [x, y, z])))"
proof -
  have u2: "[x, y, c][2 := z] = [x, y, z]" for x y z :: int
    by (simp add: numeral_2_eq_2)
  have u1: "[x, b, c][1 := y] = [x, y, c]" for x y :: int
    by simp
  have n: "(2::nat) + 1 = 3" "(1::nat) + 1 = 2" "(0::nat) + 1 = 1" "(2::nat) < 3" "(1::nat) < 3"
    "(0::nat) < 3"
    by simp_all
  have s2: "parseLoop parts 2 [x, y, c] =
     (case Comp parts 2 of Inl err \<Rightarrow> Inl (InvalidComponent (parts ! 2) err)
      | Inr z \<Rightarrow> Inr [x, y, z])" for x y
    unfolding parseLoop_step [OF n(4)] n(1) parseLoop_3 u2 ..
  have s1: "parseLoop parts 1 [x, b, c] =
     (case Comp parts 1 of Inl err \<Rightarrow> Inl (InvalidComponent (parts ! 1) err)
      | Inr y \<Rightarrow> parseLoop parts 2 [x, y, c])" for x
    unfolding parseLoop_step [OF n(5)] n(2) u1 ..
  have s0: "parseLoop parts 0 [a, b, c] =
     (case Comp parts 0 of Inl err \<Rightarrow> Inl (InvalidComponent (parts ! 0) err)
      | Inr x \<Rightarrow> parseLoop parts 1 [x, b, c])"
    unfolding parseLoop_step [OF n(6)] n(3) list_update_code ..
  show ?thesis
    unfolding s0 s1 s2 ..
qed

lemma compareVersionParts_closed:
  "compareVersionParts v1 v2 =
     (if v1 ! 0 < v2 ! 0 then - 1 else if v1 ! 0 > v2 ! 0 then 1
      else if v1 ! 1 < v2 ! 1 then - 1 else if v1 ! 1 > v2 ! 1 then 1
      else if v1 ! 2 < v2 ! 2 then - 1 else if v1 ! 2 > v2 ! 2 then 1 else 0)"
proof -
  have n: "(2::nat) + 1 = 3" "(1::nat) + 1 = 2" "(0::nat) + 1 = 1"
    by simp_all
  have step: "i < 3 \<Longrightarrow> compareLoop v1 v2 i =
      (if v1 ! i < v2 ! i then - 1 else if v1 ! i > v2 ! i then 1
       else compareLoop v1 v2 (i + 1))" for i
    by (subst compareLoop.simps) simp
  have c3: "compareLoop v1 v2 3 = 0"
    by (subst compareLoop.simps) simp
  have c2: "compareLoop v1 v2 2 =
      (if v1 ! 2 < v2 ! 2 then - 1 else if v1 ! 2 > v2 ! 2 then 1 else 0)"
    using step [of 2] unfolding n c3 by simp
  have c1: "compareLoop v1 v2 1 =
      (if v1 ! 1 < v2 ! 1 then - 1 else if v1 ! 1 > v2 ! 1 then 1 else compareLoop v1 v2 2)"
    using step [of 1] unfolding n by simp
  have c0: "compareLoop v1 v2 0 =
      (if v1 ! 0 < v2 ! 0 then - 1 else if v1 ! 0 > v2 ! 0 then 1 else compareLoop v1 v2 1)"
    using step [of 0] unfolding n by simp
  show ?thesis
    unfolding compareVersionParts_def c0 c1 c2 ..
qed

lemma compare_triple:
  "compareVersionParts v1 v2 < 0 \<longleftrightarrow> triple v1 < triple v2"
  "compareVersionParts v1 v2 \<le> 0 \<longleftrightarrow> triple v1 \<le> triple v2"
  "compareVersionParts v1 v2 > 0 \<longleftrightarrow> triple v1 > triple v2"
  "compareVersionParts v1 v2 \<ge> 0 \<longleftrightarrow> triple v1 \<ge> triple v2"
  "compareVersionParts v1 v2 = 0 \<longleftrightarrow> triple v1 = triple v2"
  by (auto simp: compareVersionParts_closed triple_def)

lemma Comp_junk:
  assumes "ps \<noteq> []" "e \<noteq> []" "\<forall>c \<in> set e. spaceByte c"
    and "Comp (butlast ps @ [last ps @ e]) i = Inr x"
  shows "Comp ps i = Inr x"
proof -
  let ?qs = "butlast ps @ [last ps @ e]"
  have len: "length ?qs = length ps" using assms(1) by simp
  consider "i < length ps - 1" | "i = length ps - 1" | "length ps \<le> i"
    by linarith
  then show ?thesis
  proof cases
    case 1
    then have "?qs ! i = ps ! i"
      by (simp add: nth_append nth_butlast)
    with 1 assms(4) len show ?thesis by (simp add: Comp_def)
  next
    case 2
    then have "?qs ! i = last ps @ e"
      by (simp add: nth_append)
    with 2 assms len Atoi_junk [OF assms(2,3), where p = "last ps" and n = x] show ?thesis
      by (simp add: Comp_def)
  next
    case 3
    with assms(4) len show ?thesis by (simp add: Comp_def)
  qed
qed

lemma parseVersion_closed:
  "parseVersion s =
     (let parts = Split (TrimPrefix s ''v'') CHR ''.'' in
      case Comp parts 0 of Inl err \<Rightarrow> Inl (InvalidComponent (parts ! 0) err)
      | Inr x \<Rightarrow>
     (case Comp parts 1 of Inl err \<Rightarrow> Inl (InvalidComponent (parts ! 1) err)
      | Inr y \<Rightarrow>
     (case Comp parts 2 of Inl err \<Rightarrow> Inl (InvalidComponent (parts ! 2) err)
      | Inr z \<Rightarrow> Inr [x, y, z])))"
  by (simp add: parseVersion_def parseLoop_closed Let_def)

lemma parseVersion_Inr_iff:
  "parseVersion s = Inr r \<longleftrightarrow>
     (\<exists>x y z. r = [x, y, z] \<and>
        Comp (Split (TrimPrefix s ''v'') CHR ''.'') 0 = Inr x \<and>
        Comp (Split (TrimPrefix s ''v'') CHR ''.'') 1 = Inr y \<and>
        Comp (Split (TrimPrefix s ''v'') CHR ''.'') 2 = Inr z)"
  by (auto simp: parseVersion_closed Let_def split: sum.splits)

lemma TrimPrefix_v_junk:
  assumes "e \<noteq> []" "\<forall>c \<in> set e. spaceByte c"
  shows "TrimPrefix (t @ e) ''v'' = TrimPrefix t ''v'' @ e"
proof (cases t)
  case Nil
  with assms spaceByte_cases [of "hd e"] show ?thesis
    by (cases e) (auto simp: TrimPrefix_def HasPrefix_def)
next
  case (Cons a as)
  then show ?thesis by (simp add: TrimPrefix_def HasPrefix_def)
qed

lemma parseVersion_drop_junk:
  assumes "parseVersion (t @ e) = Inr r" "e \<in> set spaceEncodings"
  shows "parseVersion t = Inr r"
proof -
  note j = enc_junk [OF assms(2)]
  have dot: "CHR ''.'' \<notin> set e"
    using j spaceByte_cases by auto
  let ?ps = "Split (TrimPrefix t ''v'') CHR ''.''"
  have sp: "Split (TrimPrefix (t @ e) ''v'') CHR ''.'' = butlast ?ps @ [last ?ps @ e]"
    using j by (simp add: TrimPrefix_v_junk Split_append_junk [OF dot])
  have c: "Comp (butlast ?ps @ [last ?ps @ e]) i = Inr x \<Longrightarrow> Comp ?ps i = Inr x" for i x
    using Comp_junk [OF Split_not_Nil, of e _ _ i x] j by blast
  from assms(1) show ?thesis
    unfolding parseVersion_Inr_iff sp using c by blast
qed

lemma parseVersion_TrimRightSpace:
  "parseVersion s = Inr r \<Longrightarrow> parseVersion (TrimRightSpace s) = Inr r"
proof (induction s rule: TrimRightSpace.induct)
  case (1 s)
  show ?case
  proof (rule trailingSpace_cases [of s])
    assume z: "trailingSpace s = 0"
    have "TrimRightSpace s = s"
      by (subst TrimRightSpace.simps) (simp add: z)
    with "1.prems" show ?thesis by simp
  next
    fix t e
    assume s: "s = t @ e" and e: "e \<in> set spaceEncodings" and l: "trailingSpace s = length e"
    have ne: "trailingSpace s \<noteq> 0" using enc_junk [OF e] l by simp
    have "length s - trailingSpace s = length t" unfolding l by (simp add: s)
    then have t: "take (length s - trailingSpace s) s = t" by (simp add: s)
    have "parseVersion (t @ e) = Inr r" using "1.prems" unfolding s .
    then have "parseVersion t = Inr r" using e by (rule parseVersion_drop_junk)
    then have "parseVersion (TrimRightSpace t) = Inr r"
      using "1.IH" [OF ne] unfolding t by simp
    moreover have "TrimRightSpace s = TrimRightSpace t"
      by (subst TrimRightSpace.simps) (simp only: ne t if_False)
    ultimately show ?thesis by simp
  qed
qed

lemma Atoi_Inr_hd:
  "Atoi p = Inr n \<Longrightarrow> p \<noteq> [] \<and> (hd p = CHR ''-'' \<or> hd p = CHR ''+'' \<or> isDigit (hd p))"
  using Atoi_Inr_digits [of p n] by (cases p) (auto split: if_splits)

lemma parseVersion_hd:
  assumes "parseVersion s = Inr r"
  shows "s \<noteq> [] \<and> (hd s = CHR ''v'' \<or> hd s = CHR ''-'' \<or> hd s = CHR ''+'' \<or> isDigit (hd s))"
proof -
  let ?u = "TrimPrefix s ''v''"
  from assms obtain x where "Comp (Split ?u CHR ''.'') 0 = Inr x"
    unfolding parseVersion_Inr_iff by blast
  then have "Atoi (hd (Split ?u CHR ''.'')) = Inr x"
    using Split_not_Nil [of ?u "CHR ''.''"] by (simp add: Comp_def hd_conv_nth)
  from Atoi_Inr_hd [OF this] have tw: "takeWhile (\<lambda>x. x \<noteq> CHR ''.'') ?u \<noteq> []"
    and h: "hd (takeWhile (\<lambda>x. x \<noteq> CHR ''.'') ?u) = CHR ''-'' \<or>
         hd (takeWhile (\<lambda>x. x \<noteq> CHR ''.'') ?u) = CHR ''+'' \<or>
         isDigit (hd (takeWhile (\<lambda>x. x \<noteq> CHR ''.'') ?u))"
    by (simp_all add: Split_hd)
  from tw have u: "?u \<noteq> []" by auto
  with tw have "hd (takeWhile (\<lambda>x. x \<noteq> CHR ''.'') ?u) = hd ?u"
    by (cases ?u) (auto split: if_splits)
  with h have hu: "hd ?u = CHR ''-'' \<or> hd ?u = CHR ''+'' \<or> isDigit (hd ?u)" by simp
  show ?thesis
  proof (cases "HasPrefix s ''v''")
    case True
    then show ?thesis by (cases s) (auto simp: HasPrefix_def)
  next
    case False
    with u hu show ?thesis by (simp add: TrimPrefix_def)
  qed
qed

lemma parseVersion_required:
  assumes "parseVersion ver = Inr r"
  shows "parseVersion (TrimSpace (TrimRightSpace ver)) = Inr r"
    and "TrimRightSpace ver \<noteq> []"
    and "hd (TrimRightSpace ver) \<notin> set ''><=^~''"
    and "TrimSpace ver = TrimRightSpace ver"
proof -
  have nsp: "\<not> spaceByte c" if "c \<in> set ''v-+'' \<or> isDigit c" for c
    using that spaceByte_cases [of c] by auto
  have p1: "parseVersion (TrimRightSpace ver) = Inr r"
    using assms by (rule parseVersion_TrimRightSpace)
  from parseVersion_hd [OF p1] show ne: "TrimRightSpace ver \<noteq> []" by simp
  from parseVersion_hd [OF p1] have h: "hd (TrimRightSpace ver) \<in> set ''v-+''
      \<or> isDigit (hd (TrimRightSpace ver))" by auto
  then show "hd (TrimRightSpace ver) \<notin> set ''><=^~''"
    by (auto simp: isDigit_def)
  have "TrimLeftSpace (TrimRightSpace ver) = TrimRightSpace ver"
    using nsp [OF h] by (simp add: TrimLeftSpace_id)
  then show "parseVersion (TrimSpace (TrimRightSpace ver)) = Inr r"
    using parseVersion_TrimRightSpace [OF p1] by (simp add: TrimSpace_def)
  from parseVersion_hd [OF assms] have "ver \<noteq> []" "hd ver \<in> set ''v-+'' \<or> isDigit (hd ver)"
    by auto
  then show "TrimSpace ver = TrimRightSpace ver"
    using nsp [of "hd ver"] by (simp add: TrimSpace_def TrimLeftSpace_id)
qed

lemma parseVersion_Inl_iff:
  "(\<exists>err. parseVersion s = Inl err) \<longleftrightarrow>
     (\<exists>i<3. \<exists>e. Comp (Split (TrimPrefix s ''v'') CHR ''.'') i = Inl e)"
proof -
  let ?ps = "Split (TrimPrefix s ''v'') CHR ''.''"
  have three: "(\<exists>i<3. P i) \<longleftrightarrow> P 0 \<or> P 1 \<or> P (2::nat)" for P
  proof
    assume "\<exists>i<3. P i"
    then obtain i where "i < 3" "P i" by blast
    then have "i = 0 \<or> i = 1 \<or> i = 2" by linarith
    with \<open>P i\<close> show "P 0 \<or> P 1 \<or> P 2" by blast
  next
    assume "P 0 \<or> P 1 \<or> P 2"
    moreover have "(0::nat) < 3" "(1::nat) < 3" "(2::nat) < 3" by simp_all
    ultimately show "\<exists>i<3. P i" by blast
  qed
  show ?thesis
    unfolding three parseVersion_closed Let_def
    by (cases "Comp ?ps 0"; cases "Comp ?ps 1"; cases "Comp ?ps 2") simp_all
qed

lemma Comp_Inl_iff:
  "Comp parts i = Inl e \<longleftrightarrow> i < length parts \<and> Atoi (parts ! i) = Inl e"
  by (simp add: Comp_def)

text \<open>
  Claim C6, as the code has it. \<^verbatim>\<open>parseVersion\<close> removes one leading \<^verbatim>\<open>v\<close>, splits
  at the dots and reads the first three components, a missing one counting as 0. It
  succeeds exactly when each of the first three components that are present is accepted
  by \<^verbatim>\<open>strconv.Atoi\<close>, and fails exactly when one of them is rejected; what follows
  the third component is not read.
\<close>

theorem parseVersion_first_three:
  "(parseVersion version = Inr r \<longleftrightarrow>
      (\<exists>x y z. r = [x, y, z] \<and>
         Comp (Split (TrimPrefix version ''v'') CHR ''.'') 0 = Inr x \<and>
         Comp (Split (TrimPrefix version ''v'') CHR ''.'') 1 = Inr y \<and>
         Comp (Split (TrimPrefix version ''v'') CHR ''.'') 2 = Inr z)) \<and>
   ((\<exists>err. parseVersion version = Inl err) \<longleftrightarrow>
      (\<exists>i<3. i < length (Split (TrimPrefix version ''v'') CHR ''.'') \<and>
         (\<exists>e. Atoi (Split (TrimPrefix version ''v'') CHR ''.'' ! i) = Inl e)))"
  unfolding parseVersion_Inl_iff Comp_Inl_iff
  using parseVersion_Inr_iff [of version r] by blast

theorem parseVersion_first_three_witness:
  "parseVersion ''v3.11'' = Inr [3, 11, 0] \<and> parseVersion ''1.x'' \<noteq> Inr [1, 0, 0]"
proof -
  have c: "Comp (Split (TrimPrefix ''v3.11'' ''v'') CHR ''.'') 0 = Inr 3"
    "Comp (Split (TrimPrefix ''v3.11'' ''v'') CHR ''.'') 1 = Inr 11"
    "Comp (Split (TrimPrefix ''v3.11'' ''v'') CHR ''.'') 2 = Inr 0"
    by (simp_all add: TrimPrefix_def HasPrefix_def Comp_def Atoi_def Let_def isDigit_def)
  have d: "Comp (Split (TrimPrefix ''1.x'' ''v'') CHR ''.'') 1 = Inl ErrSyntax"
    by (simp add: TrimPrefix_def HasPrefix_def Comp_def Atoi_def Let_def isDigit_def)
  show ?thesis
    using parseVersion_first_three [of "''v3.11''" "[3, 11, 0]"]
      parseVersion_first_three [of "''1.x''" "[1, 0, 0]"] c d
    by simp
qed

text \<open>A fourth component that is no number does not make \<^verbatim>\<open>parseVersion\<close> fail.\<close>

theorem parseVersion_ignores_fourth:
  "parseVersion ''1.2.3.x'' = Inr [1, 2, 3] \<and>
   ''x'' \<in> set (Split (TrimPrefix ''1.2.3.x'' ''v'') CHR ''.'') \<and>
   Atoi ''x'' = Inl ErrSyntax"
  by (simp add: parseVersion_closed TrimPrefix_def HasPrefix_def Comp_def Atoi_def Let_def
      isDigit_def)

lemma TrimSpace_operator:
  assumes "op \<in> set [''>='', ''<='', ''>'', ''<'', ''='', ''^'', ''~'']"
  shows "TrimSpace (op @ ver) = op @ TrimRightSpace ver"
proof -
  have op: "op \<noteq> []" "\<not> spaceByte (hd op)" "\<not> spaceByte (last op)"
    using assms spaceByte_cases [of "hd op"] spaceByte_cases [of "last op"] by auto
  then have "TrimLeftSpace (op @ ver) = op @ ver"
    by (simp add: TrimLeftSpace_id)
  then show ?thesis
    using TrimRightSpace_append_left [OF op(1,3)] by (simp add: TrimSpace_def)
qed

text \<open>
  Claim C1. For a current version and a required version that \<^verbatim>\<open>parseVersion\<close>
  accepts, \<^verbatim>\<open>CompareVersion\<close> of the current version and the required version behind
  an operator is the comparison of the two versions as (major, minor, patch): the
  operators \<^verbatim>\<open>>=\<close>, \<^verbatim>\<open>>\<close>, \<^verbatim>\<open><=\<close>, \<^verbatim>\<open><\<close> and \<^verbatim>\<open>=\<close> are the orderings and
  equality, no operator is equality, \<^verbatim>\<open>^\<close> holds iff the current version is at
  least the required one and has its major number, and \<^verbatim>\<open>~\<close> iff it is at least the
  required one and has its major and minor numbers.
\<close>

theorem CompareVersion_semantics:
  assumes cur: "parseVersion current = Inr c" and req: "parseVersion required = Inr r"
  shows "CompareVersion current (''>='' @ required) = Inr (triple c \<ge> triple r) \<and>
         CompareVersion current (''>'' @ required) = Inr (triple c > triple r) \<and>
         CompareVersion current (''<='' @ required) = Inr (triple c \<le> triple r) \<and>
         CompareVersion current (''<'' @ required) = Inr (triple c < triple r) \<and>
         CompareVersion current (''='' @ required) = Inr (triple c = triple r) \<and>
         CompareVersion current required = Inr (triple c = triple r) \<and>
         CompareVersion current (''^'' @ required) =
           Inr (triple c \<ge> triple r \<and> c ! 0 = r ! 0) \<and>
         CompareVersion current (''~'' @ required) =
           Inr (triple c \<ge> triple r \<and> c ! 0 = r ! 0 \<and> c ! 1 = r ! 1)"
proof -
  note rq = parseVersion_required [OF req]
  obtain h w where v: "TrimRightSpace required = h # w"
    using rq(2) by (cases "TrimRightSpace required") auto
  have h: "h \<noteq> CHR ''>''" "h \<noteq> CHR ''<''" "h \<noteq> CHR ''=''" "h \<noteq> CHR ''^''"
    "h \<noteq> CHR ''~''"
    using rq(3) v by auto
  have p: "parseVersion (TrimSpace (h # w)) = Inr r"
    using rq(1) v by simp
  have t: "TrimSpace (''>='' @ required) = ''>='' @ h # w"
    "TrimSpace (''<='' @ required) = ''<='' @ h # w"
    "TrimSpace (''>'' @ required) = ''>'' @ h # w"
    "TrimSpace (''<'' @ required) = ''<'' @ h # w"
    "TrimSpace (''='' @ required) = ''='' @ h # w"
    "TrimSpace (''^'' @ required) = ''^'' @ h # w"
    "TrimSpace (''~'' @ required) = ''~'' @ h # w"
    "TrimSpace required = h # w"
    using rq(4) v
      TrimSpace_operator [of "''>=''" required] TrimSpace_operator [of "''<=''" required]
      TrimSpace_operator [of "''>''" required] TrimSpace_operator [of "''<''" required]
      TrimSpace_operator [of "''=''" required] TrimSpace_operator [of "''^''" required]
      TrimSpace_operator [of "''~''" required]
    by simp_all
  have p0: "parseVersion (h # w) = Inr r"
    using parseVersion_TrimRightSpace [OF req] v by simp
  have neg: "\<not> triple c < triple r \<longleftrightarrow> triple c \<ge> triple r"
    by auto
  show ?thesis
    unfolding CompareVersion_def t
    using h
    by (auto simp add: HasPrefix_def p p0 cur compare_triple neg)
qed

lemma parse_examples:
  "parseVersion ''1.2.4'' = Inr [1, 2, 4]" "parseVersion ''1.2.3'' = Inr [1, 2, 3]"
  "parseVersion ''2.0.0'' = Inr [2, 0, 0]" "parseVersion ''1.3.0'' = Inr [1, 3, 0]"
  "parseVersion ''3.11.5'' = Inr [3, 11, 5]" "parseVersion ''3.11.0'' = Inr [3, 11, 0]"
  by (simp_all add: parseVersion_closed TrimPrefix_def HasPrefix_def Comp_def Atoi_def Let_def
      isDigit_def)

theorem CompareVersion_examples:
  "CompareVersion ''1.2.4'' ''^1.2.3'' = Inr True \<and>
   CompareVersion ''2.0.0'' ''^1.2.3'' = Inr False \<and>
   CompareVersion ''1.3.0'' ''~1.2.3'' = Inr False \<and>
   CompareVersion ''1.2.4'' ''~1.2.3'' = Inr True \<and>
   CompareVersion ''3.11.5'' ''>=3.11.0'' = Inr True"
  using CompareVersion_semantics [OF parse_examples(1) parse_examples(2)]
    CompareVersion_semantics [OF parse_examples(3) parse_examples(2)]
    CompareVersion_semantics [OF parse_examples(4) parse_examples(2)]
    CompareVersion_semantics [OF parse_examples(5) parse_examples(6)]
  by (simp add: triple_def)

section \<open>Properties of the inclusion conditions\<close>

lemma trailingSpace_0: "s = [] \<or> \<not> spaceByte (last s) \<Longrightarrow> trailingSpace s = 0"
proof -
  assume a: "s = [] \<or> \<not> spaceByte (last s)"
  have "\<not> HasSuffix s e" if "e \<in> set spaceEncodings" for e
  proof
    assume "HasSuffix s e"
    then obtain t where "s = t @ e" by (auto simp: HasSuffix_iff)
    with enc_junk [OF that] have "s \<noteq> []" "spaceByte (last s)"
      by auto
    with a show False by simp
  qed
  then have "find (HasSuffix s) spaceEncodings = None"
    by (simp add: find_None_iff)
  then show ?thesis by (simp add: trailingSpace_def)
qed

lemma TrimRightSpace_id: "s = [] \<or> \<not> spaceByte (last s) \<Longrightarrow> TrimRightSpace s = s"
  by (subst TrimRightSpace.simps) (simp add: trailingSpace_0)

lemma TrimSpace_id:
  "s \<noteq> [] \<Longrightarrow> \<not> spaceByte (hd s) \<Longrightarrow> \<not> spaceByte (last s) \<Longrightarrow> TrimSpace s = s"
  by (simp add: TrimSpace_def TrimLeftSpace_id TrimRightSpace_id)

lemma TrimLeftSpace_blank: "TrimLeftSpace (CHR '' '' # s) = TrimLeftSpace s"
proof -
  have "leadingSpace (CHR '' '' # s) = 1"
    by (simp add: leadingSpace_def spaceEncodings_def HasPrefix_def)
  then show ?thesis
    by (subst TrimLeftSpace.simps) simp
qed

lemma TrimRightSpace_blank: "TrimRightSpace (s @ '' '') = TrimRightSpace s"
proof -
  have "trailingSpace (s @ '' '') = 1"
    by (simp add: trailingSpace_def spaceEncodings_def HasSuffix_def)
  then show ?thesis
    by (subst TrimRightSpace.simps) simp
qed

lemma wrapped_length: "HasPrefix s ''{{'' \<Longrightarrow> HasSuffix s ''}}'' \<Longrightarrow> 4 \<le> length s"
proof (rule ccontr)
  assume p: "HasPrefix s ''{{''" and q: "HasSuffix s ''}}''" and "\<not> 4 \<le> length s"
  then have "length s < 4" by simp
  moreover from q have "2 \<le> length s" by (simp add: HasSuffix_def)
  ultimately consider "length s = 2" | "length s = 3" by linarith
  then show False
  proof cases
    case 1
    then obtain a b where "s = [a, b]"
      by (cases s; cases "tl s") auto
    with p q show False by (simp add: HasPrefix_def HasSuffix_def)
  next
    case 2
    then obtain a b c where "s = [a, b, c]"
      by (cases s; cases "tl s"; cases "tl (tl s)") auto
    with p q show False by (simp add: HasPrefix_def HasSuffix_def)
  qed
qed

text \<open>A name that a condition can refer to in its three forms: it does not begin or end
  with white space, and does not begin with a dot or an opening brace.\<close>

lemma conditionKey_forms:
  assumes "v \<noteq> []" "\<not> spaceByte (hd v)" "\<not> spaceByte (last v)"
    "hd v \<noteq> CHR ''.''" "hd v \<noteq> CHR ''{''"
  shows "conditionKey (''{{ .'' @ v @ '' }}'') = v"
    and "conditionKey (''.'' @ v) = v"
    and "conditionKey v = v"
proof -
  obtain a w where v: "v = a # w" using assms(1) by (cases v) auto
  have nb: "\<not> spaceByte CHR ''.''" "\<not> spaceByte CHR ''{''" "\<not> spaceByte CHR ''}''"
    using spaceByte_cases [of "CHR ''.''"] spaceByte_cases [of "CHR ''{''"]
      spaceByte_cases [of "CHR ''}''"] by auto
  have t1: "TrimSpace v = v"
    using assms by (simp add: TrimSpace_id)
  have t2: "TrimSpace (''.'' @ v) = ''.'' @ v"
    using assms nb by (simp add: TrimSpace_id)
  have t3: "TrimSpace (''{{ .'' @ v @ '' }}'') = ''{{ .'' @ v @ '' }}''"
    using nb by (simp add: TrimSpace_id)
  have "TrimRightSpace ((''.'' @ v) @ '' '') = ''.'' @ v"
    unfolding TrimRightSpace_blank using assms(1,3) by (simp add: TrimRightSpace_id)
  then have t4: "TrimSpace ('' .'' @ v @ '' '') = ''.'' @ v"
    using nb by (simp add: TrimSpace_def TrimLeftSpace_blank TrimLeftSpace_id)
  have inner: "take (length (''{{ .'' @ v @ '' }}'') - 2 - 2) (drop 2 (''{{ .'' @ v @ '' }}''))
      = '' .'' @ v @ '' ''"
    by simp
  have pre: "HasPrefix (''{{ .'' @ v @ '' }}'') ''{{''"
    by (simp add: HasPrefix_def)
  have suf: "HasSuffix (''{{ .'' @ v @ '' }}'') ''}}''"
    using HasSuffix_iff [of "''{{ .'' @ v @ '' }}''" "''}}''"] by simp
  have d: "TrimPrefix (''.'' @ v) ''.'' = v"
    by (simp add: TrimPrefix_def HasPrefix_def)
  show "conditionKey (''{{ .'' @ v @ '' }}'') = v"
    unfolding conditionKey_def Let_def t3 inner t4 using pre suf d by simp
  have np: "\<not> HasPrefix (''.'' @ v) ''{{''" "\<not> HasPrefix v ''{{''"
    using assms(5) v by (simp_all add: HasPrefix_def)
  show "conditionKey (''.'' @ v) = v"
    unfolding conditionKey_def Let_def t2 using np d by simp
  have "TrimPrefix v ''.'' = v"
    using assms(4) v by (simp add: TrimPrefix_def HasPrefix_def)
  then show "conditionKey v = v"
    unfolding conditionKey_def Let_def t1 using np by simp
qed

text \<open>
  Claim C8. The three forms of a reference to a variable \<open>v\<close>, the delimited
  \<^verbatim>\<open>{{ .v }}\<close>, the field access \<^verbatim>\<open>.v\<close> and the bare name \<^verbatim>\<open>v\<close>, give the same
  key \<open>v\<close> and the same result of \<^verbatim>\<open>evaluateCondition\<close> in every context, for every
  name that has no white space at its ends and does not begin with a dot or a brace.
\<close>

theorem condition_forms:
  assumes "v \<noteq> []" "\<not> spaceByte (hd v)" "\<not> spaceByte (last v)"
    "hd v \<noteq> CHR ''.''" "hd v \<noteq> CHR ''{''"
  shows "conditionKey (''{{ .'' @ v @ '' }}'') = v \<and>
         conditionKey (''.'' @ v) = v \<and>
         conditionKey v = v \<and>
         evaluateCondition (''{{ .'' @ v @ '' }}'') ctx = evaluateCondition v ctx \<and>
         evaluateCondition (''.'' @ v) ctx = evaluateCondition v ctx"
  using conditionKey_forms [OF assms] by (simp add: evaluateCondition_def)

lemma not_spaceByte_letter: "\<not> spaceByte CHR ''I''" "\<not> spaceByte CHR ''r''"
  by (simp_all add: spaceByte_def spaceEncodings_def)

theorem condition_forms_IncludeDocker:
  "\<forall>ctx. conditionKey ''{{ .IncludeDocker }}'' = ''IncludeDocker'' \<and>
     conditionKey ''.IncludeDocker'' = ''IncludeDocker'' \<and>
     conditionKey ''IncludeDocker'' = ''IncludeDocker'' \<and>
     evaluateCondition ''{{ .IncludeDocker }}'' ctx = IncludeDocker ctx \<and>
     evaluateCondition ''.IncludeDocker'' ctx = IncludeDocker ctx \<and>
     evaluateCondition ''IncludeDocker'' ctx = IncludeDocker ctx"
proof
  fix ctx
  show "conditionKey ''{{ .IncludeDocker }}'' = ''IncludeDocker'' \<and>
     conditionKey ''.IncludeDocker'' = ''IncludeDocker'' \<and>
     conditionKey ''IncludeDocker'' = ''IncludeDocker'' \<and>
     evaluateCondition ''{{ .IncludeDocker }}'' ctx = IncludeDocker ctx \<and>
     evaluateCondition ''.IncludeDocker'' ctx = IncludeDocker ctx \<and>
     evaluateCondition ''IncludeDocker'' ctx = IncludeDocker ctx"
    using condition_forms [of "''IncludeDocker''" ctx] not_spaceByte_letter
    by (simp add: evaluateCondition_def)
qed

lemma conditionsLoop_all:
  "conditionsLoop cs ctx \<longleftrightarrow> (\<forall>c \<in> set cs. evaluateCondition c ctx)"
  by (induction cs) auto

lemma shouldGenerateFile_all:
  "shouldGenerateFile fileSpec ctx \<longleftrightarrow>
     (\<forall>c \<in> set (Conditions fileSpec). evaluateCondition c ctx)"
  by (cases "Conditions fileSpec") (simp_all add: shouldGenerateFile_def conditionsLoop_all)

lemma GetBool_iff: "GetBool ctx key \<longleftrightarrow> Context.Variables ctx key = Some (VBool True)"
  by (auto simp: GetBool_def split: option.splits val.splits)

lemma asBool_iff: "asBool v \<longleftrightarrow> v = Some (VBool True)"
  by (auto simp: asBool_def split: option.splits val.splits)

lemma conditionKey_compound: "conditionKey compoundCondition = compoundCondition"
proof -
  have "\<not> spaceByte CHR ''d''" "\<not> spaceByte (CHR 0x27)"
    by (simp_all add: spaceByte_def spaceEncodings_def)
  then have "TrimSpace compoundCondition = compoundCondition"
    by (simp add: TrimSpace_id compoundCondition_def)
  then show ?thesis
    by (simp add: conditionKey_def) (simp add: compoundCondition_def HasPrefix_def TrimPrefix_def)
qed

text \<open>
  Claim C10. \<^verbatim>\<open>evaluateCondition\<close> is true exactly when the key of the condition is
  \<^verbatim>\<open>IncludeDocker\<close> or \<^verbatim>\<open>IncludeTests\<close> and the field of that name is true in the
  context, or is another key that the variables of the context bind to the boolean
  true. In a context built by \<^verbatim>\<open>NewContext\<close> the two fields are read from the variables,
  so there it is true exactly when the variables bind the key to the boolean true. A
  compound expression such as \<^verbatim>\<open>database != 'none'\<close> is its own key, looked up as it
  stands; a key bound to a string, also to \<^verbatim>\<open>"true"\<close>, or to a number gives false.
  A file with a condition that is false is skipped by the loop of \<^verbatim>\<open>Generate\<close>: the
  file system and the printed lines stay as they are.
\<close>

theorem evaluateCondition_characterisation:
  "(evaluateCondition condition ctx \<longleftrightarrow>
      (conditionKey condition = ''IncludeDocker'' \<and> IncludeDocker ctx) \<or>
      (conditionKey condition = ''IncludeTests'' \<and> IncludeTests ctx) \<or>
      (conditionKey condition \<noteq> ''IncludeDocker'' \<and> conditionKey condition \<noteq> ''IncludeTests''
         \<and> Context.Variables ctx (conditionKey condition) = Some (VBool True))) \<and>
   (evaluateCondition condition (NewContext projectName outputDir variables tmpl) \<longleftrightarrow>
      variables (conditionKey condition) = Some (VBool True)) \<and>
   conditionKey compoundCondition = compoundCondition \<and>
   (conditionKey condition \<noteq> ''IncludeDocker'' \<longrightarrow> conditionKey condition \<noteq> ''IncludeTests'' \<longrightarrow>
      (Context.Variables ctx (conditionKey condition) = Some (VString s)
        \<or> Context.Variables ctx (conditionKey condition) = Some (VInt n)
        \<or> Context.Variables ctx (conditionKey condition) = None) \<longrightarrow>
      \<not> evaluateCondition condition ctx) \<and>
   (condition \<in> set (Conditions fileSpec) \<longrightarrow> \<not> evaluateCondition condition ctx \<longrightarrow>
      \<not> shouldGenerateFile fileSpec ctx \<and>
      generateFiles w filesDir [fileSpec] ctx False fs out = (None, fs, out))"
proof (intro conjI)
  show main: "evaluateCondition condition ctx \<longleftrightarrow>
      (conditionKey condition = ''IncludeDocker'' \<and> IncludeDocker ctx) \<or>
      (conditionKey condition = ''IncludeTests'' \<and> IncludeTests ctx) \<or>
      (conditionKey condition \<noteq> ''IncludeDocker'' \<and> conditionKey condition \<noteq> ''IncludeTests''
         \<and> Context.Variables ctx (conditionKey condition) = Some (VBool True))"
    by (simp add: evaluateCondition_def Let_def GetBool_iff)
  show "evaluateCondition condition (NewContext projectName outputDir variables tmpl) \<longleftrightarrow>
      variables (conditionKey condition) = Some (VBool True)"
    by (simp add: evaluateCondition_def Let_def GetBool_iff NewContext_def asBool_iff)
  show "conditionKey compoundCondition = compoundCondition"
    by (rule conditionKey_compound)
  show "conditionKey condition \<noteq> ''IncludeDocker'' \<longrightarrow> conditionKey condition \<noteq> ''IncludeTests'' \<longrightarrow>
      (Context.Variables ctx (conditionKey condition) = Some (VString s)
        \<or> Context.Variables ctx (conditionKey condition) = Some (VInt n)
        \<or> Context.Variables ctx (conditionKey condition) = None) \<longrightarrow>
      \<not> evaluateCondition condition ctx"
    unfolding main by auto
  show "condition \<in> set (Conditions fileSpec) \<longrightarrow> \<not> evaluateCondition condition ctx \<longrightarrow>
      \<not> shouldGenerateFile fileSpec ctx \<and>
      generateFiles w filesDir [fileSpec] ctx False fs out = (None, fs, out)"
    by (auto simp: shouldGenerateFile_all)
qed

theorem evaluateCondition_characterisation_witness:
  "\<not> evaluateCondition compoundCondition
       (NewContext ''p'' ''p'' [''database'' \<mapsto> VString ''postgres''] exampleTemplate) \<and>
   \<not> evaluateCondition ''{{ .UseCache }}''
       (NewContext ''p'' ''p'' [''UseCache'' \<mapsto> VString ''true''] exampleTemplate) \<and>
   evaluateCondition ''{{ .UseCache }}''
       (NewContext ''p'' ''p'' [''UseCache'' \<mapsto> VBool True] exampleTemplate)"
proof -
  have k: "conditionKey ''{{ .UseCache }}'' = ''UseCache''"
  proof -
    have "\<not> spaceByte CHR ''U''" "\<not> spaceByte CHR ''e''"
      by (simp_all add: spaceByte_def spaceEncodings_def)
    then show ?thesis
      using conditionKey_forms(1) [of "''UseCache''"] by simp
  qed
  note c = evaluateCondition_characterisation [THEN conjunct2, THEN conjunct1]
  show ?thesis
    using c [of compoundCondition "''p''" "''p''" "[''database'' \<mapsto> VString ''postgres'']"
          exampleTemplate]
      c [of "''{{ .UseCache }}''" "''p''" "''p''" "[''UseCache'' \<mapsto> VString ''true'']"
          exampleTemplate]
      c [of "''{{ .UseCache }}''" "''p''" "''p''" "[''UseCache'' \<mapsto> VBool True]"
          exampleTemplate]
    by (simp add: k conditionKey_compound)
qed

section \<open>Properties of the requirement checking\<close>

lemma validateStep_append:
  "validateStep level sys req result =
     \<lparr> Errors = Errors result @ Errors (validateStep level sys req \<lparr> Errors = [], Warnings = [] \<rparr>),
       Warnings = Warnings result
         @ Warnings (validateStep level sys req \<lparr> Errors = [], Warnings = [] \<rparr>) \<rparr>"
  by (simp add: validateStep_def CheckCommand_def Let_def split: sum.split)

lemma validateLoop_append:
  "validateLoop level sys reqs result =
     \<lparr> Errors = Errors result @ Errors (validateLoop level sys reqs \<lparr> Errors = [], Warnings = [] \<rparr>),
       Warnings = Warnings result
         @ Warnings (validateLoop level sys reqs \<lparr> Errors = [], Warnings = [] \<rparr>) \<rparr>"
proof (induction reqs arbitrary: result)
  case Nil
  show ?case by simp
next
  case (Cons req reqs)
  let ?e = "\<lparr> Errors = [], Warnings = [] \<rparr>"
  have l: "validateLoop level sys (req # reqs) result =
      \<lparr> Errors = Errors (validateStep level sys req result)
                 @ Errors (validateLoop level sys reqs ?e),
        Warnings = Warnings (validateStep level sys req result)
                 @ Warnings (validateLoop level sys reqs ?e) \<rparr>"
    using Cons.IH [of "validateStep level sys req result"] by simp
  have r: "validateLoop level sys (req # reqs) ?e =
      \<lparr> Errors = Errors (validateStep level sys req ?e)
                 @ Errors (validateLoop level sys reqs ?e),
        Warnings = Warnings (validateStep level sys req ?e)
                 @ Warnings (validateLoop level sys reqs ?e) \<rparr>"
    using Cons.IH [of "validateStep level sys req ?e"] by simp
  have s: "Errors (validateStep level sys req result)
        = Errors result @ Errors (validateStep level sys req ?e)"
      "Warnings (validateStep level sys req result)
        = Warnings result @ Warnings (validateStep level sys req ?e)"
    using validateStep_append [of level sys req result] by (metis ValidationResult.select_convs)+
  show ?case
    unfolding l r s by simp
qed

lemma Validate_Cons:
  "Validate level sys (req # reqs) =
     \<lparr> Errors = Errors (Validate level sys [req]) @ Errors (Validate level sys reqs),
       Warnings = Warnings (Validate level sys [req]) @ Warnings (Validate level sys reqs) \<rparr>"
  unfolding Validate_def validateLoop.simps
  by (subst validateLoop_append) simp

lemma Validate_single_cases:
  "Validate level sys [req] =
     (if absent sys req then
        (if Required req then \<lparr> Errors = [notFound req], Warnings = [] \<rparr>
         else \<lparr> Errors = [], Warnings = [notFound req] \<rparr>)
      else if versionProblem sys req then
        (if level = ValidationStrict
         then \<lparr> Errors = Errors (Validate level sys [req]), Warnings = [] \<rparr>
         else \<lparr> Errors = [], Warnings = Warnings (Validate level sys [req]) \<rparr>)
      else \<lparr> Errors = [], Warnings = [] \<rparr>)"
  by (auto simp: Validate_def validateStep_def CheckCommand_def Let_def absent_def
      versionProblem_def versionChecked_def notFound_def split: sum.split)

lemma Validate_single_commands:
  "map ValidationError.Command (Errors (Validate level sys [req])) =
     (if absent sys req \<and> Required req \<or> versionProblem sys req \<and> level = ValidationStrict
      then [Requirement.Command req] else [])"
  "map ValidationError.Command (Warnings (Validate level sys [req])) =
     (if absent sys req \<and> \<not> Required req \<or> versionProblem sys req \<and> level \<noteq> ValidationStrict
      then [Requirement.Command req] else [])"
  by (auto simp: Validate_def validateStep_def CheckCommand_def Let_def absent_def
      versionProblem_def versionChecked_def split: sum.split)

lemma Validate_commands:
  "map ValidationError.Command (Errors (Validate level sys reqs)) =
     map Requirement.Command
       (filter (\<lambda>req. absent sys req \<and> Required req
                      \<or> versionProblem sys req \<and> level = ValidationStrict) reqs)"
  "map ValidationError.Command (Warnings (Validate level sys reqs)) =
     map Requirement.Command
       (filter (\<lambda>req. absent sys req \<and> \<not> Required req
                      \<or> versionProblem sys req \<and> level \<noteq> ValidationStrict) reqs)"
proof (induction reqs)
  case Nil
  show "map ValidationError.Command (Errors (Validate level sys [])) =
     map Requirement.Command
       (filter (\<lambda>req. absent sys req \<and> Required req
                      \<or> versionProblem sys req \<and> level = ValidationStrict) [])"
    by (simp add: Validate_def)
  show "map ValidationError.Command (Warnings (Validate level sys [])) =
     map Requirement.Command
       (filter (\<lambda>req. absent sys req \<and> \<not> Required req
                      \<or> versionProblem sys req \<and> level \<noteq> ValidationStrict) [])"
    by (simp add: Validate_def)
next
  case (Cons req reqs)
  show "map ValidationError.Command (Errors (Validate level sys (req # reqs))) =
     map Requirement.Command
       (filter (\<lambda>req. absent sys req \<and> Required req
                      \<or> versionProblem sys req \<and> level = ValidationStrict) (req # reqs))"
    by (subst Validate_Cons) (simp add: Validate_single_commands Cons)
  show "map ValidationError.Command (Warnings (Validate level sys (req # reqs))) =
     map Requirement.Command
       (filter (\<lambda>req. absent sys req \<and> \<not> Required req
                      \<or> versionProblem sys req \<and> level \<noteq> ValidationStrict) (req # reqs))"
    by (subst Validate_Cons) (simp add: Validate_single_commands Cons)
qed

text \<open>
  Claim C2. A requirement whose command is absent gives exactly one finding, an error if
  it is \<open>Required\<close> and a warning otherwise. A requirement whose command is present and
  reports a version that does not match the required version gives exactly one finding,
  an error at the strict level and a warning at the other levels, whatever \<open>Required\<close>
  is. For a list of requirements, the errors come, in order, from the requirements that
  are absent and required or, at the strict level, have a version that is not accepted
  (no match, or a version that cannot be compared); the warnings come from those that are
  absent and optional or, below the strict level, have a version that is not accepted.
\<close>

theorem Validate_severity:
  "(absent sys req \<and> Required req \<longrightarrow>
      Validate level sys [req] = \<lparr> Errors = [notFound req], Warnings = [] \<rparr>) \<and>
   (absent sys req \<and> \<not> Required req \<longrightarrow>
      Validate level sys [req] = \<lparr> Errors = [], Warnings = [notFound req] \<rparr>) \<and>
   (mismatch sys req \<and> level = ValidationStrict \<longrightarrow>
      Validate level sys [req] = \<lparr> Errors = [doesNotMatch sys req], Warnings = [] \<rparr>) \<and>
   (mismatch sys req \<and> level \<noteq> ValidationStrict \<longrightarrow>
      Validate level sys [req] = \<lparr> Errors = [], Warnings = [doesNotMatch sys req] \<rparr>) \<and>
   map ValidationError.Command (Errors (Validate level sys reqs)) =
     map Requirement.Command
       (filter (\<lambda>req. absent sys req \<and> Required req
                      \<or> versionProblem sys req \<and> level = ValidationStrict) reqs) \<and>
   map ValidationError.Command (Warnings (Validate level sys reqs)) =
     map Requirement.Command
       (filter (\<lambda>req. absent sys req \<and> \<not> Required req
                      \<or> versionProblem sys req \<and> level \<noteq> ValidationStrict) reqs)"
proof -
  have single: "(absent sys req \<and> Required req \<longrightarrow>
      Validate level sys [req] = \<lparr> Errors = [notFound req], Warnings = [] \<rparr>) \<and>
   (absent sys req \<and> \<not> Required req \<longrightarrow>
      Validate level sys [req] = \<lparr> Errors = [], Warnings = [notFound req] \<rparr>) \<and>
   (mismatch sys req \<and> level = ValidationStrict \<longrightarrow>
      Validate level sys [req] = \<lparr> Errors = [doesNotMatch sys req], Warnings = [] \<rparr>) \<and>
   (mismatch sys req \<and> level \<noteq> ValidationStrict \<longrightarrow>
      Validate level sys [req] = \<lparr> Errors = [], Warnings = [doesNotMatch sys req] \<rparr>)"
    by (auto simp: Validate_def validateStep_def CheckCommand_def Let_def absent_def
        mismatch_def versionChecked_def notFound_def doesNotMatch_def)
  show ?thesis
    using single Validate_commands [of level sys reqs] by blast
qed

lemma exampleSystem_facts:
  "absent exampleSystem (requirement ''docker'' [] True [])"
  "absent exampleSystem (requirement ''docker'' [] False [])"
  "Required (requirement ''docker'' [] True [])"
  "\<not> Required (requirement ''docker'' [] False [])"
  by (simp_all add: absent_def exampleSystem_def requirement_def)

lemma exampleSystem_mismatch: "mismatch exampleSystem (requirement ''go'' ''>=1.22'' False [])"
proof -
  have p: "parseVersion ''1.21.0'' = Inr [1, 21, 0]" "parseVersion ''1.22'' = Inr [1, 22, 0]"
    by (simp_all add: parseVersion_closed TrimPrefix_def HasPrefix_def Comp_def Atoi_def Let_def
        isDigit_def)
  have n: "\<not> spaceByte CHR ''>''" "\<not> spaceByte CHR ''1''" "\<not> spaceByte CHR ''2''"
    by (simp_all add: spaceByte_def spaceEncodings_def)
  have t: "TrimSpace ''>=1.22'' = ''>=1.22''" "TrimSpace ''1.22'' = ''1.22''"
    using n by (simp_all add: TrimSpace_id)
  have "CompareVersion ''1.21.0'' ''>=1.22'' = Inr False"
    unfolding CompareVersion_def t
    by (simp add: HasPrefix_def t p compareVersionParts_closed)
  then show ?thesis
    by (simp add: mismatch_def versionChecked_def exampleSystem_def requirement_def)
qed

theorem Validate_severity_witness:
  "Validate ValidationBasic exampleSystem [requirement ''docker'' [] True []]
     = \<lparr> Errors = [notFound (requirement ''docker'' [] True [])], Warnings = [] \<rparr> \<and>
   Validate ValidationBasic exampleSystem [requirement ''docker'' [] False []]
     = \<lparr> Errors = [], Warnings = [notFound (requirement ''docker'' [] False [])] \<rparr> \<and>
   Validate ValidationStrict exampleSystem [requirement ''go'' ''>=1.22'' False []]
     = \<lparr> Errors = [doesNotMatch exampleSystem (requirement ''go'' ''>=1.22'' False [])],
         Warnings = [] \<rparr> \<and>
   Validate ValidationBasic exampleSystem [requirement ''go'' ''>=1.22'' False []]
     = \<lparr> Errors = [],
         Warnings = [doesNotMatch exampleSystem (requirement ''go'' ''>=1.22'' False [])] \<rparr>"
  using Validate_severity [of exampleSystem "requirement ''docker'' [] True []" ValidationBasic]
    Validate_severity [of exampleSystem "requirement ''docker'' [] False []" ValidationBasic]
    Validate_severity [of exampleSystem "requirement ''go'' ''>=1.22'' False []" ValidationStrict]
    Validate_severity [of exampleSystem "requirement ''go'' ''>=1.22'' False []" ValidationBasic]
    exampleSystem_facts exampleSystem_mismatch
  by simp

lemma validateStep_When:
  "validateStep level sys (req\<lparr> When := w \<rparr>) result = validateStep level sys req result"
  by (simp add: validateStep_def CheckCommand_def Let_def split: sum.split)

lemma validateLoop_When_map:
  "validateLoop level sys (map (\<lambda>req. req\<lparr> When := f req \<rparr>) reqs) result
     = validateLoop level sys reqs result"
  by (induction reqs arbitrary: result) (simp_all add: validateStep_When)

lemma validateLoop_When_update:
  "validateLoop level sys (reqs[i := (reqs ! i)\<lparr> When := w \<rparr>]) result
     = validateLoop level sys reqs result"
proof (induction reqs arbitrary: i result)
  case Nil
  show ?case by simp
next
  case (Cons req reqs)
  show ?case by (cases i) (simp_all add: validateStep_When Cons)
qed

text \<open>
  Claim C9. \<^verbatim>\<open>Validate\<close> does not read the field \<open>When\<close>: with the \<open>When\<close> of any
  requirement of the list replaced by any other value, or with all of them replaced, its
  errors and its warnings are the same. Every requirement is checked.
\<close>

theorem Validate_ignores_When:
  "Validate level sys (reqs[i := (reqs ! i)\<lparr> When := w \<rparr>]) = Validate level sys reqs \<and>
   Validate level sys (map (\<lambda>req. req\<lparr> When := f req \<rparr>) reqs) = Validate level sys reqs"
  by (simp add: Validate_def validateLoop_When_map validateLoop_When_update)

theorem Validate_ignores_When_witness:
  "Validate ValidationBasic exampleSystem [requirement ''docker'' [] True ''{{ .IncludeDocker }}'']
     = \<lparr> Errors = [notFound (requirement ''docker'' [] True [])], Warnings = [] \<rparr>"
proof -
  have "[requirement ''docker'' [] True ''{{ .IncludeDocker }}'']
      = [requirement ''docker'' [] True []]
          [0 := ([requirement ''docker'' [] True []] ! 0)\<lparr> When := ''{{ .IncludeDocker }}'' \<rparr>]"
    by (simp add: requirement_def)
  then show ?thesis
    using Validate_ignores_When [of ValidationBasic exampleSystem
        "[requirement ''docker'' [] True []]" 0 "''{{ .IncludeDocker }}''"]
      Validate_single_cases [of ValidationBasic exampleSystem "requirement ''docker'' [] True []"]
      exampleSystem_facts
    by simp
qed

section \<open>Properties of the project generation\<close>

lemma generateFile_dry:
  "generateFile w filesDir fileSpec ctx True fs out =
     (None, fs, out @ [if ShouldRender (Source fileSpec)
                       then WouldRender (Source fileSpec) (target w ctx fileSpec)
                       else WouldCopy (Source fileSpec) (target w ctx fileSpec)])"
  by (simp add: generateFile_def target_def Let_def)

lemma generateFiles_dry:
  "generateFiles w filesDir files ctx True fs out =
     (None, fs, out @ map (dryNotice w ctx) files)"
proof (induction files arbitrary: out)
  case Nil
  show ?case by simp
next
  case (Cons fileSpec rest)
  show ?case
    by (simp add: Cons generateFile_dry dryNotice_def)
qed

lemma reported_dry:
  "reported (map (dryNotice w ctx) files) = map (target w ctx) (included ctx files)"
  by (induction files) (simp_all add: dryNotice_def included_def)

lemma created_dry: "created (map (dryNotice w ctx) files) = []"
  by (induction files) (simp_all add: dryNotice_def)

lemma created_map_Created: "created (map Created xs) = xs"
  by (induction xs) simp_all

lemma reported_map_Created: "reported (map Created xs) = []"
  by (induction xs) simp_all

lemma writes_trans:
  "writes w b qs c \<Longrightarrow> writes w a ps b \<Longrightarrow> writes w a (ps @ qs) c"
proof (induction rule: writes.induct)
  case (stay fs)
  then show ?case by simp
next
  case (mkdir fs qs fs1 dir perm err fs2)
  then show ?case by (blast intro: writes.mkdir)
next
  case (written fs qs fs1 path content perm fs2)
  then have "writes w a ((ps @ qs) @ [path]) fs2" by (blast intro: writes.written)
  then show ?case by simp
next
  case (failed fs qs fs1 path content perm err fs2)
  then show ?case by (blast intro: writes.failed)
qed

lemma writeWithParents_writes:
  assumes "writeWithParents w path content perm fs = (r, fs')"
  shows "(r = None \<longrightarrow> writes w fs [path] fs') \<and> (r \<noteq> None \<longrightarrow> writes w fs [] fs')"
proof -
  obtain e1 fs1 where m: "MkdirAll w (Dir w path) 493 fs = (e1, fs1)"
    by (cases "MkdirAll w (Dir w path) 493 fs") auto
  have w1: "writes w fs [] fs1"
    by (rule writes.mkdir [OF writes.stay m])
  show ?thesis
  proof (cases e1)
    case (Some err)
    with assms m have "r \<noteq> None" "fs' = fs1"
      by (auto simp: writeWithParents_def)
    with w1 show ?thesis by auto
  next
    case None
    obtain e2 fs2 where f: "WriteFile w path content perm fs1 = (e2, fs2)"
      by (cases "WriteFile w path content perm fs1") auto
    show ?thesis
    proof (cases e2)
      case None
      with assms m f \<open>e1 = None\<close> have "r = None" "fs' = fs2"
        by (auto simp: writeWithParents_def)
      moreover have "writes w fs ([] @ [path]) fs2"
        using f None by (intro writes.written [OF w1]) simp
      ultimately show ?thesis by simp
    next
      case (Some err)
      with assms m f \<open>e1 = None\<close> have "r \<noteq> None" "fs' = fs2"
        by (auto simp: writeWithParents_def)
      moreover have "writes w fs [] fs2"
        using f Some by (intro writes.failed [OF w1]) simp
      ultimately show ?thesis by auto
    qed
  qed
qed

text \<open>A real \<^verbatim>\<open>generateFile\<close> that succeeds has written the file and printed its line;
  one that fails has written no file and printed nothing.\<close>

lemma generateFile_real:
  assumes "generateFile w filesDir fileSpec ctx False fs out = (r, fs', out')"
  shows "(r = None \<longrightarrow> out' = out @ [Created (target w ctx fileSpec)]
                      \<and> writes w fs [target w ctx fileSpec] fs') \<and>
         (r \<noteq> None \<longrightarrow> out' = out \<and> writes w fs [] fs')"
proof -
  let ?src = "Join w filesDir (Source fileSpec)"
  let ?perm = "GetPermissions fileSpec"
  have wrote: "(r = None \<longrightarrow> out' = out @ [Created (target w ctx fileSpec)]
                      \<and> writes w fs [target w ctx fileSpec] fs') \<and>
         (r \<noteq> None \<longrightarrow> out' = out \<and> writes w fs [] fs')"
    if g: "generateFile w filesDir fileSpec ctx False fs out =
          (case writeWithParents w (target w ctx fileSpec) content ?perm fs of
             (Some err, fs1) \<Rightarrow> (Some err, fs1, out)
           | (None, fs1) \<Rightarrow> (None, fs1, out @ [Created (target w ctx fileSpec)]))"
    for content
  proof -
    obtain e1 fs1 where p: "writeWithParents w (target w ctx fileSpec) content ?perm fs = (e1, fs1)"
      by (cases "writeWithParents w (target w ctx fileSpec) content ?perm fs") auto
    note ww = writeWithParents_writes [OF p]
    show ?thesis
    proof (cases e1)
      case None
      with assms g p have "r = None" "fs' = fs1" "out' = out @ [Created (target w ctx fileSpec)]"
        by simp_all
      with ww None show ?thesis by simp
    next
      case (Some err)
      with assms g p have "r \<noteq> None" "fs' = fs1" "out' = out"
        by auto
      with ww Some show ?thesis by auto
    qed
  qed
  have stop: "(r = None \<longrightarrow> out' = out @ [Created (target w ctx fileSpec)]
                      \<and> writes w fs [target w ctx fileSpec] fs') \<and>
         (r \<noteq> None \<longrightarrow> out' = out \<and> writes w fs [] fs')"
    if g: "generateFile w filesDir fileSpec ctx False fs out = (Some err, fs, out)" for err
    using assms g by (auto intro: writes.stay)
  show ?thesis
  proof (cases "ShouldRender (Source fileSpec)")
    case True
    show ?thesis
    proof (cases "Render w ?src ctx fs")
      case (Inl err)
      with True show ?thesis
        by (intro stop [of err]) (simp add: generateFile_def Let_def RenderToFile_def)
    next
      case (Inr content)
      with True show ?thesis
        by (intro wrote [of content])
           (simp add: generateFile_def Let_def RenderToFile_def target_def split: prod.split option.split)
    qed
  next
    case False
    show ?thesis
    proof (cases "ReadFile w ?src fs")
      case (Inl err)
      with False show ?thesis
        by (intro stop [of "FailedToReadFile err"])
           (simp add: generateFile_def Let_def CopyFile_def)
    next
      case (Inr content)
      with False show ?thesis
        by (intro wrote [of content])
           (simp add: generateFile_def Let_def CopyFile_def target_def split: prod.split option.split)
    qed
  qed
qed

text \<open>
  The loop of a real run. If it succeeds, every included file was written and printed,
  in order. If it fails, it fails at an included file \<open>f\<close>, with the error of
  \<^verbatim>\<open>generateFile\<close> for \<open>f\<close>: the included files before \<open>f\<close> were written and
  printed, and nothing was printed for \<open>f\<close> and the files behind it.
\<close>

lemma generateFiles_real:
  assumes "generateFiles w filesDir files ctx False fs out = (res, fs', out')"
  shows "(res = None \<longrightarrow>
            out' = out @ map Created (map (target w ctx) (included ctx files)) \<and>
            writes w fs (map (target w ctx) (included ctx files)) fs') \<and>
         (\<forall>err. res = Some err \<longrightarrow>
            (\<exists>pre f post fsm e.
               included ctx files = pre @ f # post \<and>
               err = FailedToGenerateFile (Destination f) e \<and>
               out' = out @ map Created (map (target w ctx) pre) \<and>
               writes w fs (map (target w ctx) pre) fsm \<and>
               generateFile w filesDir f ctx False fsm out' = (Some e, fs', out')))"
  using assms
proof (induction files arbitrary: fs out)
  case Nil
  then show ?case by (auto simp: included_def intro: writes.stay)
next
  case (Cons fileSpec rest)
  show ?case
  proof (cases "shouldGenerateFile fileSpec ctx")
    case False
    with Cons.prems have "generateFiles w filesDir rest ctx False fs out = (res, fs', out')"
      by simp
    from Cons.IH [OF this] False show ?thesis by (simp add: included_def)
  next
    case True
    then have inc: "included ctx (fileSpec # rest) = fileSpec # included ctx rest"
      by (simp add: included_def)
    obtain r1 fs1 out1 where g: "generateFile w filesDir fileSpec ctx False fs out = (r1, fs1, out1)"
      by (cases "generateFile w filesDir fileSpec ctx False fs out") auto
    note one = generateFile_real [OF g]
    show ?thesis
    proof (cases r1)
      case (Some e)
      with one have o: "out1 = out" by simp
      from Cons.prems True g Some
      have r: "res = Some (FailedToGenerateFile (Destination fileSpec) e)" "fs' = fs1" "out' = out1"
        by simp_all
      have "included ctx (fileSpec # rest) = [] @ fileSpec # included ctx rest \<and>
            FailedToGenerateFile (Destination fileSpec) e
              = FailedToGenerateFile (Destination fileSpec) e \<and>
            out' = out @ map Created (map (target w ctx) []) \<and>
            writes w fs (map (target w ctx) []) fs \<and>
            generateFile w filesDir fileSpec ctx False fs out' = (Some e, fs', out')"
        using inc g Some o r by (simp add: writes.stay)
      then show ?thesis unfolding r(1) by blast
    next
      case None
      with one have o1: "out1 = out @ [Created (target w ctx fileSpec)]"
        and w1: "writes w fs [target w ctx fileSpec] fs1"
        by simp_all
      from Cons.prems True g None
      have rest: "generateFiles w filesDir rest ctx False fs1 out1 = (res, fs', out')"
        by simp
      note ih = Cons.IH [OF rest]
      show ?thesis
      proof (intro conjI impI allI)
        assume "res = None"
        with ih have "out' = out1 @ map Created (map (target w ctx) (included ctx rest))"
          and w2: "writes w fs1 (map (target w ctx) (included ctx rest)) fs'"
          by simp_all
        then show "out' = out @ map Created (map (target w ctx) (included ctx (fileSpec # rest)))"
          using o1 inc by simp
        show "writes w fs (map (target w ctx) (included ctx (fileSpec # rest))) fs'"
          using writes_trans [OF w2 w1] inc by simp
      next
        fix err
        assume "res = Some err"
        with ih obtain pre f post fsm e where p:
          "included ctx rest = pre @ f # post"
          "err = FailedToGenerateFile (Destination f) e"
          "out' = out1 @ map Created (map (target w ctx) pre)"
          "writes w fs1 (map (target w ctx) pre) fsm"
          "generateFile w filesDir f ctx False fsm out' = (Some e, fs', out')"
          by blast
        have "included ctx (fileSpec # rest) = (fileSpec # pre) @ f # post \<and>
              err = FailedToGenerateFile (Destination f) e \<and>
              out' = out @ map Created (map (target w ctx) (fileSpec # pre)) \<and>
              writes w fs (map (target w ctx) (fileSpec # pre)) fsm \<and>
              generateFile w filesDir f ctx False fsm out' = (Some e, fs', out')"
          using p inc o1 writes_trans [OF p(4) w1] by simp
        then show "\<exists>pre f post fsm e.
               included ctx (fileSpec # rest) = pre @ f # post \<and>
               err = FailedToGenerateFile (Destination f) e \<and>
               out' = out @ map Created (map (target w ctx) pre) \<and>
               writes w fs (map (target w ctx) pre) fsm \<and>
               generateFile w filesDir f ctx False fsm out' = (Some e, fs', out')"
          by blast
      qed
    qed
  qed
qed

lemma Generate_dry:
  assumes "DryRun opts"
  shows "Generate w opts fs out =
     (case Load w (Language opts @ ''/'' @ Framework opts) fs of
        Inl err \<Rightarrow> (Some (FailedToLoadTemplate err), fs, out)
      | Inr tmpl \<Rightarrow> (None, fs, out @ map (dryNotice w (contextOf opts tmpl)) (Files tmpl)))"
  using assms
  by (simp add: Generate_def Let_def generateFiles_dry contextOf_def split: sum.split)

lemma Generate_real:
  assumes "\<not> DryRun opts"
    and "Load w (Language opts @ ''/'' @ Framework opts) fs = Inr tmpl"
    and "Generate w opts fs [] = (res, fs', out')"
  shows "(res = None \<longrightarrow>
            out' = map Created (map (target w (contextOf opts tmpl))
                                  (included (contextOf opts tmpl) (Files tmpl))) \<and>
            writes w fs (map (target w (contextOf opts tmpl))
                           (included (contextOf opts tmpl) (Files tmpl))
                         @ [metadataPath w (contextOf opts tmpl)]) fs') \<and>
         (\<forall>e. res = Some (FailedToCreateProjectDirectory e) \<longrightarrow>
            out' = [] \<and> writes w fs [] fs') \<and>
         (\<forall>d e. res = Some (FailedToGenerateFile d e) \<longrightarrow>
            (\<exists>pre f post fsm.
               included (contextOf opts tmpl) (Files tmpl) = pre @ f # post \<and>
               d = Destination f \<and>
               out' = map Created (map (target w (contextOf opts tmpl)) pre) \<and>
               writes w fs (map (target w (contextOf opts tmpl)) pre) fsm \<and>
               generateFile w (GetFilesDir w tmpl) f (contextOf opts tmpl) False fsm out'
                 = (Some e, fs', out') \<and>
               writes w fs (map (target w (contextOf opts tmpl)) pre) fs')) \<and>
         (\<forall>e. res = Some (FailedToCreateMetadataFile e) \<longrightarrow>
            out' = map Created (map (target w (contextOf opts tmpl))
                                  (included (contextOf opts tmpl) (Files tmpl))) \<and>
            writes w fs (map (target w (contextOf opts tmpl))
                           (included (contextOf opts tmpl) (Files tmpl))) fs') \<and>
         (\<forall>e. res \<noteq> Some (FailedToLoadTemplate e))"
proof -
  let ?ctx = "contextOf opts tmpl"
  let ?inc = "included ?ctx (Files tmpl)"
  let ?dir = "if OutputDir opts = [] then ProjectName opts else OutputDir opts"
  obtain e1 fs1 where m: "MkdirAll w ?dir 493 fs = (e1, fs1)"
    by (cases "MkdirAll w ?dir 493 fs") auto
  have w1: "writes w fs [] fs1"
    by (rule writes.mkdir [OF writes.stay m])
  show ?thesis
  proof (cases e1)
    case (Some err)
    with assms m have "res = Some (FailedToCreateProjectDirectory err)" "fs' = fs1" "out' = []"
      by (auto simp: Generate_def Let_def)
    with w1 show ?thesis by simp
  next
    case None
    obtain r2 fs2 out2 where
      g: "generateFiles w (GetFilesDir w tmpl) (Files tmpl) ?ctx False fs1 [] = (r2, fs2, out2)"
      by (cases "generateFiles w (GetFilesDir w tmpl) (Files tmpl) ?ctx False fs1 []") auto
    note gr = generateFiles_real [OF g]
    show ?thesis
    proof (cases r2)
      case (Some err2)
      with gr obtain pre f post fsm e where p:
        "?inc = pre @ f # post"
        "err2 = FailedToGenerateFile (Destination f) e"
        "out2 = [] @ map Created (map (target w ?ctx) pre)"
        "writes w fs1 (map (target w ?ctx) pre) fsm"
        "generateFile w (GetFilesDir w tmpl) f ?ctx False fsm out2 = (Some e, fs2, out2)"
        by blast
      have r: "res = Some err2" "fs' = fs2" "out' = out2"
        using assms m None g Some by (auto simp: Generate_def Let_def contextOf_def)
      have wm: "writes w fs (map (target w ?ctx) pre) fsm"
        using writes_trans [OF p(4) w1] by simp
      have "writes w fsm [] fs2"
        using generateFile_real [OF p(5)] by simp
      from writes_trans [OF this wm] have wf: "writes w fs (map (target w ?ctx) pre) fs2"
        by simp
      have "?inc = pre @ f # post \<and> Destination f = Destination f \<and>
            out' = map Created (map (target w ?ctx) pre) \<and>
            writes w fs (map (target w ?ctx) pre) fsm \<and>
            generateFile w (GetFilesDir w tmpl) f ?ctx False fsm out' = (Some e, fs', out') \<and>
            writes w fs (map (target w ?ctx) pre) fs'"
        using p wm wf r by simp
      then show ?thesis unfolding r(1) p(2) by blast
    next
      case None
      with gr have o2: "out2 = map Created (map (target w ?ctx) ?inc)"
        and w2: "writes w fs1 (map (target w ?ctx) ?inc) fs2"
        by simp_all
      have w12: "writes w fs (map (target w ?ctx) ?inc) fs2"
        using writes_trans [OF w2 w1] by simp
      have od: "Context.OutputDir ?ctx = ?dir"
        by (simp add: contextOf_def NewContext_def)
      obtain e3 fs3 where
        c: "WriteFile w (metadataPath w ?ctx) (Metadata w ?ctx tmpl) 420 fs2 = (e3, fs3)"
        by (cases "WriteFile w (metadataPath w ?ctx) (Metadata w ?ctx tmpl) 420 fs2") auto
      then have cm: "createMetadataFile w ?ctx tmpl fs2 = (e3, fs3)"
        by (simp add: createMetadataFile_def metadataPath_def)
      show ?thesis
      proof (cases e3)
        case None
        have r: "res = None" "fs' = fs3" "out' = out2"
          using assms m \<open>e1 = None\<close> g \<open>r2 = None\<close> cm None
          by (auto simp: Generate_def Let_def contextOf_def)
        have "writes w fs (map (target w ?ctx) ?inc @ [metadataPath w ?ctx]) fs3"
          using c None by (intro writes.written [OF w12]) simp
        with r o2 show ?thesis by simp
      next
        case (Some err)
        have r: "res = Some (FailedToCreateMetadataFile err)" "fs' = fs3" "out' = out2"
          using assms m \<open>e1 = None\<close> g \<open>r2 = None\<close> cm Some
          by (auto simp: Generate_def Let_def contextOf_def)
        have "writes w fs (map (target w ?ctx) ?inc) fs3"
          using c Some by (intro writes.failed [OF w12]) simp
        with r o2 show ?thesis by simp
      qed
    qed
  qed
qed

text \<open>
  Claim C3, as the code has it. A dry run leaves the file system as it was, whatever the
  operations of the file system do: it creates no directory and writes no file, the
  metadata file included. If the template loads, the dry run succeeds and prints one line
  for each file of the template, in order: skipped if a condition of the file is false,
  would-be rendered or copied otherwise, and no line that a file was created.

  The real run from the same options and file system evaluates the same conditions in the
  same context and prints only lines of created files. The files it creates are, in
  order, an initial part of the files that the dry run reports, and the writes that
  succeed in it are those of exactly the created files, followed by the metadata file
  when the run succeeds. If the real run succeeds, or fails only at the metadata file, it
  has created all the files that the dry run reports. If it cannot create the project
  directory it has created none. If it fails at a file, that file \<open>f\<close> is one of the
  included files, the error is the one of \<^verbatim>\<open>generateFile\<close> for \<open>f\<close>, and the created
  files are exactly the included files before \<open>f\<close>: it can create fewer files than the
  dry run reports.
\<close>

theorem dry_run_simulates:
  assumes "DryRun opts"
    and "Generate w opts fs [] = (res, fs', out)"
    and "Generate w (opts\<lparr> DryRun := False \<rparr>) fs [] = (res2, fs2, out2)"
  shows "fs' = fs \<and> created out = [] \<and>
     (case Load w (Language opts @ ''/'' @ Framework opts) fs of
        Inl err \<Rightarrow> res = Some (FailedToLoadTemplate err) \<and> out = []
            \<and> res2 = Some (FailedToLoadTemplate err) \<and> fs2 = fs \<and> out2 = []
      | Inr tmpl \<Rightarrow>
          res = None \<and>
          out = map (dryNotice w (contextOf opts tmpl)) (Files tmpl) \<and>
          reported out = map (target w (contextOf opts tmpl))
             (filter (\<lambda>fileSpec. shouldGenerateFile fileSpec (contextOf opts tmpl)) (Files tmpl)) \<and>
          reported out2 = [] \<and>
          out2 = map Created (created out2) \<and>
          prefix (created out2) (reported out) \<and>
          writes w fs (created out2
             @ (if res2 = None then [metadataPath w (contextOf opts tmpl)] else [])) fs2 \<and>
          (res2 = None \<longrightarrow> created out2 = reported out) \<and>
          (\<forall>e. res2 = Some (FailedToCreateMetadataFile e) \<longrightarrow> created out2 = reported out) \<and>
          (\<forall>e. res2 = Some (FailedToCreateProjectDirectory e) \<longrightarrow> created out2 = []) \<and>
          (\<forall>d e. res2 = Some (FailedToGenerateFile d e) \<longrightarrow>
             (\<exists>pre f post fsm.
                included (contextOf opts tmpl) (Files tmpl) = pre @ f # post \<and>
                d = Destination f \<and>
                created out2 = map (target w (contextOf opts tmpl)) pre \<and>
                writes w fs (created out2) fsm \<and>
                generateFile w (GetFilesDir w tmpl) f (contextOf opts tmpl) False fsm out2
                  = (Some e, fs2, out2))) \<and>
          (\<forall>e. res2 \<noteq> Some (FailedToLoadTemplate e)))"
proof (cases "Load w (Language opts @ ''/'' @ Framework opts) fs")
  case (Inl err)
  with assms show ?thesis
    by (simp add: Generate_def)
next
  case (Inr tmpl)
  note map_map [simp del]
  let ?ctx = "contextOf opts tmpl"
  let ?all = "map (target w ?ctx) (included ?ctx (Files tmpl))"
  have c: "contextOf (opts\<lparr> DryRun := False \<rparr>) tmpl = ?ctx"
    by (simp add: contextOf_def)
  from Generate_dry [OF assms(1), of w fs "[]"] Inr assms(2)
  have dry: "res = None" "fs' = fs" "out = map (dryNotice w ?ctx) (Files tmpl)"
    by simp_all
  have r: "reported out = ?all" "created out = []"
    using dry(3) by (simp_all add: reported_dry created_dry)
  have rf: "reported out = map (target w ?ctx)
             (filter (\<lambda>fileSpec. shouldGenerateFile fileSpec ?ctx) (Files tmpl))"
    using r(1) by (simp add: included_def)
  have nd: "\<not> DryRun (opts\<lparr> DryRun := False \<rparr>)"
    by simp
  have ld: "Load w (Language (opts\<lparr> DryRun := False \<rparr>) @ ''/''
      @ Framework (opts\<lparr> DryRun := False \<rparr>)) fs = Inr tmpl"
    using Inr by simp
  note real = Generate_real [OF nd ld assms(3), unfolded c]
  have shape: "\<exists>made. out2 = map Created made \<and> prefix made ?all \<and>
      writes w fs (made @ (if res2 = None then [metadataPath w ?ctx] else [])) fs2"
  proof (cases res2)
    case None
    with real show ?thesis by (intro exI [of _ ?all]) simp
  next
    case (Some err)
    show ?thesis
    proof (cases err)
      case (FailedToLoadTemplate e)
      with Some real show ?thesis by simp
    next
      case (FailedToCreateProjectDirectory e)
      with Some real show ?thesis by (intro exI [of _ "[]"]) simp
    next
      case (FailedToGenerateFile d e)
      with Some real obtain pre f post where
        "included ?ctx (Files tmpl) = pre @ f # post"
        "out2 = map Created (map (target w ?ctx) pre)"
        "writes w fs (map (target w ?ctx) pre) fs2"
        by blast
      with Some show ?thesis
        by (intro exI [of _ "map (target w ?ctx) pre"]) simp
    next
      case (FailedToCreateMetadataFile e)
      with Some real show ?thesis by (intro exI [of _ ?all]) simp
    qed
  qed
  then obtain made where made: "out2 = map Created made" "prefix made ?all"
    "writes w fs (made @ (if res2 = None then [metadataPath w ?ctx] else [])) fs2"
    by blast
  have c2: "created out2 = made" "reported out2 = []" "out2 = map Created (created out2)"
    using made(1) by (simp_all add: created_map_Created reported_map_Created)
  have ok: "res2 = None \<longrightarrow> created out2 = reported out"
    using real c2(1) made(1) r(1) by (auto simp: created_map_Created)
  have meta: "\<forall>e. res2 = Some (FailedToCreateMetadataFile e) \<longrightarrow> created out2 = reported out"
    using real r(1) by (auto simp: created_map_Created)
  have proj: "\<forall>e. res2 = Some (FailedToCreateProjectDirectory e) \<longrightarrow> created out2 = []"
    using real by auto
  have atfile: "\<forall>d e. res2 = Some (FailedToGenerateFile d e) \<longrightarrow>
             (\<exists>pre f post fsm.
                included ?ctx (Files tmpl) = pre @ f # post \<and>
                d = Destination f \<and>
                created out2 = map (target w ?ctx) pre \<and>
                writes w fs (created out2) fsm \<and>
                generateFile w (GetFilesDir w tmpl) f ?ctx False fsm out2 = (Some e, fs2, out2))"
  proof (intro allI impI)
    fix d e
    assume "res2 = Some (FailedToGenerateFile d e)"
    with real obtain pre f post fsm where p:
      "included ?ctx (Files tmpl) = pre @ f # post" "d = Destination f"
      "out2 = map Created (map (target w ?ctx) pre)"
      "writes w fs (map (target w ?ctx) pre) fsm"
      "generateFile w (GetFilesDir w tmpl) f ?ctx False fsm out2 = (Some e, fs2, out2)"
      by blast
    from p(3) have "created out2 = map (target w ?ctx) pre"
      by (simp add: created_map_Created)
    with p show "\<exists>pre f post fsm.
                included ?ctx (Files tmpl) = pre @ f # post \<and>
                d = Destination f \<and>
                created out2 = map (target w ?ctx) pre \<and>
                writes w fs (created out2) fsm \<and>
                generateFile w (GetFilesDir w tmpl) f ?ctx False fsm out2 = (Some e, fs2, out2)"
      by auto
  qed
  have noload: "\<forall>e. res2 \<noteq> Some (FailedToLoadTemplate e)"
    using real by simp
  have pfx: "prefix (created out2) (reported out)"
    using made(2) c2(1) r(1) by simp
  have wr: "writes w fs (created out2
             @ (if res2 = None then [metadataPath w ?ctx] else [])) fs2"
    using made(3) c2(1) by simp
  show ?thesis
    unfolding Inr sum.case
    using dry(1,2,3) r(2) rf c2(2,3) pfx wr ok meta proj atfile noload by blast
qed

lemma example_runs:
  "Generate exampleWorld (exampleOptions True) [] []
     = (None, [], [WouldRender ''a.tmpl'' ''p/a'', WouldRender ''b.tmpl'' ''p/b''])"
  "Generate exampleWorld (exampleOptions False) [] []
     = (Some (FailedToGenerateFile ''b.tmpl'' (FailedToParseTemplate ''syntax'')),
        [''p/a''], [Created ''p/a''])"
  by (simp_all add: Generate_def exampleWorld_def exampleOptions_def exampleTemplate_def
      mergeVariables_def NewContext_def GetFilesDir_def shouldGenerateFile_def generateFile_def
      ShouldRender_def GetOutputFilename_def HasSuffix_def TrimSuffix_def RenderToFile_def
      Render_def writeWithParents_def GetPermissions_def Let_def)

lemma evaluateCondition_IncludeDocker:
  "evaluateCondition ''{{ .IncludeDocker }}'' ctx = IncludeDocker ctx"
  using conditionKey_forms(1) [of "''IncludeDocker''"] not_spaceByte_letter
  by (simp add: evaluateCondition_def)

lemma api_runs:
  "Generate exampleWorld (apiOptions True True) [] []
     = (None, [], [WouldRender ''main.go.tmpl'' ''p/main.go'',
                   WouldCopy ''Dockerfile'' ''p/Dockerfile'', WouldCopy ''go.mod'' ''p/go.mod''])"
  "Generate exampleWorld (apiOptions True False) [] []
     = (Some (FailedToGenerateFile ''Dockerfile'' (FailedToReadFile ''unreadable'')),
        [''p/main.go''], [Created ''p/main.go''])"
  "Generate exampleWorld (apiOptions False True) [] []
     = (None, [], [WouldRender ''main.go.tmpl'' ''p/main.go'', Skipped ''Dockerfile'',
                   WouldCopy ''go.mod'' ''p/go.mod''])"
  "Generate exampleWorld (apiOptions False False) [] []
     = (None, [''p/main.go'', ''p/go.mod'', ''p/.devinit.yaml''],
        [Created ''p/main.go'', Created ''p/go.mod''])"
  by (simp_all add: Generate_def exampleWorld_def apiOptions_def apiTemplate_def mainFile_def
      dockerFile_def modFile_def mergeVariables_def NewContext_def asBool_def GetFilesDir_def
      shouldGenerateFile_def evaluateCondition_IncludeDocker generateFile_def ShouldRender_def
      GetOutputFilename_def HasSuffix_def TrimSuffix_def RenderToFile_def CopyFile_def
      Render_def writeWithParents_def createMetadataFile_def GetPermissions_def Let_def)

theorem dry_run_simulates_witness:
  "DryRun (apiOptions True True) \<and>
   Generate exampleWorld (apiOptions True True) [] []
     = (None, [], [WouldRender ''main.go.tmpl'' ''p/main.go'',
                   WouldCopy ''Dockerfile'' ''p/Dockerfile'', WouldCopy ''go.mod'' ''p/go.mod'']) \<and>
   Generate exampleWorld ((apiOptions True True)\<lparr> DryRun := False \<rparr>) [] []
     = (Some (FailedToGenerateFile ''Dockerfile'' (FailedToReadFile ''unreadable'')),
        [''p/main.go''], [Created ''p/main.go'']) \<and>
   (\<exists>pre f post.
      included (contextOf (apiOptions True True) apiTemplate) (Files apiTemplate)
        = pre @ f # post \<and>
      ''Dockerfile'' = Destination f \<and>
      created [Created ''p/main.go'']
        = map (target exampleWorld (contextOf (apiOptions True True) apiTemplate)) pre) \<and>
   writes exampleWorld [] (created [Created ''p/main.go'']) [''p/main.go''] \<and>
   DryRun (apiOptions False True) \<and>
   Generate exampleWorld (apiOptions False True) [] []
     = (None, [], [WouldRender ''main.go.tmpl'' ''p/main.go'', Skipped ''Dockerfile'',
                   WouldCopy ''go.mod'' ''p/go.mod'']) \<and>
   Generate exampleWorld ((apiOptions False True)\<lparr> DryRun := False \<rparr>) [] []
     = (None, [''p/main.go'', ''p/go.mod'', ''p/.devinit.yaml''],
        [Created ''p/main.go'', Created ''p/go.mod'']) \<and>
   created [Created ''p/main.go'', Created ''p/go.mod'']
     = reported [WouldRender ''main.go.tmpl'' ''p/main.go'', Skipped ''Dockerfile'',
                 WouldCopy ''go.mod'' ''p/go.mod''] \<and>
   writes exampleWorld []
     (created [Created ''p/main.go'', Created ''p/go.mod'']
        @ [metadataPath exampleWorld (contextOf (apiOptions False True) apiTemplate)])
     [''p/main.go'', ''p/go.mod'', ''p/.devinit.yaml'']"
proof -
  have o: "(apiOptions True True)\<lparr> DryRun := False \<rparr> = apiOptions True False"
    "(apiOptions False True)\<lparr> DryRun := False \<rparr> = apiOptions False False"
    by (simp_all add: apiOptions_def)
  have d: "DryRun (apiOptions True True)" "DryRun (apiOptions False True)"
    by (simp_all add: apiOptions_def)
  have l: "Load exampleWorld (Language (apiOptions True True) @ ''/''
      @ Framework (apiOptions True True)) [] = Inr apiTemplate"
    "Load exampleWorld (Language (apiOptions False True) @ ''/''
      @ Framework (apiOptions False True)) [] = Inr apiTemplate"
    by (simp_all add: exampleWorld_def apiOptions_def)
  have run1: "Generate exampleWorld ((apiOptions True True)\<lparr> DryRun := False \<rparr>) [] []
     = (Some (FailedToGenerateFile ''Dockerfile'' (FailedToReadFile ''unreadable'')),
        [''p/main.go''], [Created ''p/main.go''])"
    unfolding o by (rule api_runs(2))
  have run2: "Generate exampleWorld ((apiOptions False True)\<lparr> DryRun := False \<rparr>) [] []
     = (None, [''p/main.go'', ''p/go.mod'', ''p/.devinit.yaml''],
        [Created ''p/main.go'', Created ''p/go.mod''])"
    unfolding o by (rule api_runs(4))
  note r1 = dry_run_simulates [OF d(1) api_runs(1) run1, unfolded l sum.case]
  note r2 = dry_run_simulates [OF d(2) api_runs(3) run2, unfolded l sum.case]
  note s1 = r1 [THEN conjunct2, THEN conjunct2, THEN conjunct2, THEN conjunct2,
      THEN conjunct2, THEN conjunct2, THEN conjunct2, THEN conjunct2]
  note s2 = r2 [THEN conjunct2, THEN conjunct2, THEN conjunct2, THEN conjunct2,
      THEN conjunct2, THEN conjunct2, THEN conjunct2, THEN conjunct2]
  note atfile = s1 [THEN conjunct2, THEN conjunct2, THEN conjunct2, THEN conjunct2,
      THEN conjunct1, rule_format, OF refl]
  have a1: "\<exists>pre f post.
      included (contextOf (apiOptions True True) apiTemplate) (Files apiTemplate)
        = pre @ f # post \<and>
      ''Dockerfile'' = Destination f \<and>
      created [Created ''p/main.go'']
        = map (target exampleWorld (contextOf (apiOptions True True) apiTemplate)) pre"
    using atfile by (elim exE conjE, intro exI conjI)
  have a2: "writes exampleWorld [] (created [Created ''p/main.go'']) [''p/main.go'']"
    using s1 [THEN conjunct1] by simp
  have b1: "created [Created ''p/main.go'', Created ''p/go.mod'']
     = reported [WouldRender ''main.go.tmpl'' ''p/main.go'', Skipped ''Dockerfile'',
                 WouldCopy ''go.mod'' ''p/go.mod'']"
    using s2 [THEN conjunct2, THEN conjunct1] by (rule mp) (rule refl)
  have b2: "writes exampleWorld []
     (created [Created ''p/main.go'', Created ''p/go.mod'']
        @ [metadataPath exampleWorld (contextOf (apiOptions False True) apiTemplate)])
     [''p/main.go'', ''p/go.mod'', ''p/.devinit.yaml'']"
    using s2 [THEN conjunct1] by simp
  show ?thesis
    using d(1) api_runs(1) run1 a1 a2 d(2) api_runs(3) run2 b1 b2 by (intro conjI)
qed

text \<open>The dry run of the template \<^verbatim>\<open>go/cli\<close> reports two files; the real run creates
  one of them and fails at the other.\<close>

theorem dry_run_reports_more:
  "set (reported (snd (snd (Generate exampleWorld (exampleOptions True) [] []))))
     \<noteq> set (created (snd (snd (Generate exampleWorld (exampleOptions False) [] []))))"
  by (simp add: example_runs)

end
